theory Spec2Isabelle
  imports Complex_Main "HOL-Library.Char_ord" "HOL-Library.List_Lexorder"
begin

section \<open>The application state (AppContext.tsx)\<close>

text \<open>
  The data of \<^verbatim>\<open>AppContext.tsx\<close>. A JavaScript \<^verbatim>\<open>number\<close> that holds a counter or a
  time stamp is an \<open>int\<close>, the integer that the double holds (the addition on counters,
  \<open>jsPlus\<close> below, is the addition of doubles); strings are
  \<open>string\<close>; the \<^verbatim>\<open>mappings\<close> object is a map from its own keys to mappings (what a read
  of a key that is not its own returns is \<open>getProperty\<close> below). The field
  \<^verbatim>\<open>id\<close> of the three record types is suffixed, as \<open>id\<close> is a constant of HOL.
\<close>

record Tag =
  id_tag :: string
  label :: string
  usageCount :: int
  successCount :: int

record NumberMapping =
  id_mapping :: string
  number :: string
  tags :: "Tag list"

datatype Difficulty = Easy | Moderate | Hard | Expert

text \<open>
  What \<^verbatim>\<open>Math.round\<close> returns on a quotient of two counts: an integer, or \<^verbatim>\<open>NaN\<close> when
  both counts are zero.
\<close>

datatype rate = NaN | Rate int

record TestResult =
  id_test :: string
  date :: string
  difficulty :: Difficulty
  successRate :: rate

record AppState =
  mappings :: "string \<rightharpoonup> NumberMapping"
  tests :: "TestResult list"

text \<open>An entry of the \<^verbatim>\<open>usedTags\<close> array of \<^verbatim>\<open>recordTest\<close>.\<close>

record UsedTag =
  numberValue :: string
  tagId :: string
  correct :: bool

text \<open>
  The exceptions that can leave the code: \<^verbatim>\<open>JSON.parse\<close> on a text that is not JSON, and
  a property read on \<^verbatim>\<open>undefined\<close>.
\<close>

datatype error = SyntaxError | TypeError

definition INITIAL_STATE :: AppState where
  "INITIAL_STATE = \<lparr>mappings = Map.empty, tests = []\<rparr>"


subsection \<open>Decimal strings\<close>

text \<open>\<^verbatim>\<open>Number.prototype.toString\<close> on an integer, and \<^verbatim>\<open>padStart(length, '0')\<close>.\<close>

definition digitChar :: "nat \<Rightarrow> char" where
  "digitChar d = ''0123456789'' ! d"

fun natString :: "nat \<Rightarrow> string" where
  "natString n = (if n < 10 then [digitChar n] else natString (n div 10) @ [digitChar (n mod 10)])"

declare natString.simps [simp del]

definition toString :: "int \<Rightarrow> string" where
  "toString i = (if i < 0 then CHR ''-'' # natString (nat (- i)) else natString (nat i))"

definition padStart :: "nat \<Rightarrow> string \<Rightarrow> string" where
  "padStart len s = replicate (len - length s) CHR ''0'' @ s"

subsection \<open>The seed state\<close>

definition generateNumbers :: "string list" where
  "generateNumbers =
     concat (map (\<lambda>len. map (\<lambda>i. padStart len (natString i)) [0 ..< 10 ^ len]) [1, 2, 3])"

definition hydrateMappings :: "string \<rightharpoonup> NumberMapping" where
  "hydrateMappings =
     fold (\<lambda>v m. m(v \<mapsto> \<lparr>id_mapping = v, number = v, tags = []\<rparr>)) generateNumbers Map.empty"

definition seedState :: AppState where
  "seedState = INITIAL_STATE\<lparr>mappings := hydrateMappings\<rparr>"


subsection \<open>JavaScript numbers\<close>

text \<open>
  A finite \<^verbatim>\<open>number\<close> is a binary64 double: a real of the form \<open>m * 2^e\<close> with an integer
  \<open>m\<close> of at most 53 bits. \<^verbatim>\<open>/\<close> and \<^verbatim>\<open>*\<close> return the double nearest to the exact
  result, ties going to the even significand; \<open>toDouble\<close> is that rounding (for results in
  the normal range of binary64, which quotients and percentages of counters below \<open>2^53\<close>
  are). \<open>binade x\<close> is the exponent \<open>e\<close> with \<open>2^e \<le> x < 2^(e+1)\<close>, found by halving or
  doubling. \<^verbatim>\<open>Math.round\<close> is exact: the nearest integer, ties going up.
\<close>

function binade :: "real \<Rightarrow> int" where
  "binade x =
     (if x \<le> 0 then 0
      else if 2 \<le> x then binade (x / 2) + 1
      else if x < 1 then binade (2 * x) - 1
      else 0)"
  by pat_completeness auto
termination
proof (relation "measure (\<lambda>x. if 1 \<le> x then nat \<lfloor>x\<rfloor> else nat \<lceil>1 / x\<rceil>)")
  show "wf (measure (\<lambda>x::real. if 1 \<le> x then nat \<lfloor>x\<rfloor> else nat \<lceil>1 / x\<rceil>))"
    by simp
next
  fix x :: real
  assume "\<not> x \<le> 0" "2 \<le> x"
  then have "\<lfloor>x / 2\<rfloor> < \<lfloor>x\<rfloor>" "1 \<le> x / 2" "1 \<le> x" "0 < \<lfloor>x\<rfloor>"
    by (simp_all add: floor_less_iff) linarith+
  then show "(x / 2, x) \<in> measure (\<lambda>x. if 1 \<le> x then nat \<lfloor>x\<rfloor> else nat \<lceil>1 / x\<rceil>)"
    by simp
next
  fix x :: real
  assume a: "\<not> x \<le> 0" "\<not> 2 \<le> x" "x < 1"
  show "(2 * x, x) \<in> measure (\<lambda>x. if 1 \<le> x then nat \<lfloor>x\<rfloor> else nat \<lceil>1 / x\<rceil>)"
  proof (cases "1 \<le> 2 * x")
    case True
    with a have "\<lfloor>2 * x\<rfloor> = 1" by (simp add: floor_eq_iff)
    moreover from a have "1 < 1 / x" by (simp add: field_simps)
    then have "2 \<le> \<lceil>1 / x\<rceil>" by (simp add: le_ceiling_iff)
    ultimately show ?thesis using True a by simp
  next
    case False
    with a have "2 < 1 / x" by (simp add: field_simps)
    define y where "y = 1 / x"
    have y: "2 < y" using \<open>2 < 1 / x\<close> by (simp add: y_def)
    have "1 / (2 * x) = y / 2" by (simp add: y_def)
    moreover have "\<lceil>y / 2\<rceil> < \<lceil>y\<rceil>"
    proof -
      have "y / 2 \<le> of_int (\<lceil>y\<rceil> - 1)"
      proof -
        have "y \<le> of_int \<lceil>y\<rceil>" by simp
        moreover have "3 \<le> \<lceil>y\<rceil>" using y by (simp add: le_ceiling_iff)
        then have "(3::real) \<le> of_int \<lceil>y\<rceil>" by linarith
        ultimately show ?thesis by simp linarith
      qed
      then have "\<lceil>y / 2\<rceil> \<le> \<lceil>y\<rceil> - 1" by (simp only: ceiling_le_iff)
      then show ?thesis by simp
    qed
    moreover have "0 < \<lceil>y\<rceil>" using y by (simp add: less_ceiling_iff)
    ultimately have "\<lceil>1 / (2 * x)\<rceil> < \<lceil>1 / x\<rceil>" "0 < \<lceil>1 / x\<rceil>"
      by (simp_all only: y_def)
    with False a show ?thesis by simp
  qed
qed

declare binade.simps [simp del]

definition pow2 :: "int \<Rightarrow> real" where
  "pow2 e = (if 0 \<le> e then 2 ^ nat e else 1 / 2 ^ nat (- e))"

definition roundEven :: "real \<Rightarrow> int" where
  "roundEven x =
     (let f = \<lfloor>x\<rfloor>; d = x - of_int f
      in if d < 1 / 2 then f else if 1 / 2 < d then f + 1 else if even f then f else f + 1)"

definition toDouble :: "real \<Rightarrow> real" where
  "toDouble x = (let u = pow2 (binade \<bar>x\<bar> - 52) in of_int (roundEven (x / u)) * u)"

definition jsDivide :: "real \<Rightarrow> real \<Rightarrow> real" where
  "jsDivide x y = toDouble (x / y)"

definition jsTimes :: "real \<Rightarrow> real \<Rightarrow> real" where
  "jsTimes x y = toDouble (x * y)"

definition mathRound :: "real \<Rightarrow> int" where
  "mathRound x = \<lfloor>x + 1 / 2\<rfloor>"

text \<open>
  A counter is a double that holds an integer. \<^verbatim>\<open>a + b\<close> on two of them is the double
  nearest to the exact sum, an integer again (the floor below is the identity on it). It is
  the exact sum as long as that stays within \<open>2^53\<close> (lemma \<open>jsPlus_exact\<close>), and \<open>2^53 + 1\<close>
  is \<open>2^53\<close> (lemma \<open>jsPlus_saturated\<close>).
\<close>

definition jsPlus :: "int \<Rightarrow> int \<Rightarrow> int" where
  "jsPlus a b = \<lfloor>toDouble (of_int a + of_int b)\<rfloor>"


subsection \<open>Reading a property\<close>

text \<open>
  \<^verbatim>\<open>obj[key]\<close> on the \<^verbatim>\<open>mappings\<close> object looks the key up among the object's own properties
  and then in \<^verbatim>\<open>Object.prototype\<close>, whose property names are listed below (ECMA-262 with its
  Annex B). An inherited value is a function, or for \<^verbatim>\<open>__proto__\<close> the prototype itself: it is
  truthy and has no \<^verbatim>\<open>tags\<close>. A key found nowhere reads as \<^verbatim>\<open>undefined\<close>.
\<close>

definition objectPrototypeKeys :: "string list" where
  "objectPrototypeKeys =
     [''constructor'', ''__defineGetter__'', ''__defineSetter__'', ''hasOwnProperty'',
      ''__lookupGetter__'', ''__lookupSetter__'', ''isPrototypeOf'', ''propertyIsEnumerable'',
      ''toString'', ''valueOf'', ''__proto__'', ''toLocaleString'']"

datatype 'a property = Own 'a | Inherited | Undefined

definition getProperty :: "(string \<rightharpoonup> 'a) \<Rightarrow> string \<Rightarrow> 'a property" where
  "getProperty obj key =
     (case obj key of
        Some v \<Rightarrow> Own v
      | None \<Rightarrow> if key \<in> set objectPrototypeKeys then Inherited else Undefined)"

subsection \<open>The three mutations\<close>

text \<open>
  Each mutation is the updater handed to \<^verbatim>\<open>setState\<close>: a function from the previous
  state to the next, or to the exception it throws. The guard \<^verbatim>\<open>if (!mapping)\<close> returns the
  previous state for an undefined mapping only; on an inherited value the read of
  \<^verbatim>\<open>mapping.tags\<close> gives \<^verbatim>\<open>undefined\<close>, and spreading it or calling \<^verbatim>\<open>map\<close> on it throws a
  \<^verbatim>\<open>TypeError\<close>. \<^verbatim>\<open>addTag\<close> computes its id from \<^verbatim>\<open>Date.now()\<close> (the argument \<open>now\<close>) before
  the updater runs and returns it, whatever the updater does.
\<close>

definition nextIdOf :: "string \<Rightarrow> int \<Rightarrow> string" where
  "nextIdOf nv now = nv @ ''-'' @ toString now"

definition addTagState :: "AppState \<Rightarrow> string \<Rightarrow> string \<Rightarrow> string \<Rightarrow> error + AppState" where
  "addTagState prev nv lbl nextId =
     (case getProperty (mappings prev) nv of
        Undefined \<Rightarrow> Inr prev
      | Inherited \<Rightarrow> Inl TypeError
      | Own mapping \<Rightarrow>
          Inr (prev\<lparr>mappings := (mappings prev)(nv \<mapsto>
            mapping\<lparr>tags := tags mapping @
              [\<lparr>id_tag = nextId, label = lbl, usageCount = 0, successCount = 0\<rparr>]\<rparr>)\<rparr>))"

definition addTag ::
  "AppState \<Rightarrow> string \<Rightarrow> string \<Rightarrow> int \<Rightarrow> (error + AppState) \<times> string" where
  "addTag prev nv lbl now =
     (let nextId = nextIdOf nv now in (addTagState prev nv lbl nextId, nextId))"

definition updateTag :: "AppState \<Rightarrow> string \<Rightarrow> string \<Rightarrow> string \<Rightarrow> error + AppState" where
  "updateTag prev nv tid lbl =
     (case getProperty (mappings prev) nv of
        Undefined \<Rightarrow> Inr prev
      | Inherited \<Rightarrow> Inl TypeError
      | Own mapping \<Rightarrow>
          Inr (prev\<lparr>mappings := (mappings prev)(nv \<mapsto>
            mapping\<lparr>tags := map (\<lambda>tag. if id_tag tag = tid then tag\<lparr>label := lbl\<rparr> else tag)
              (tags mapping)\<rparr>)\<rparr>))"

text \<open>
  The body of the \<^verbatim>\<open>forEach\<close> of \<^verbatim>\<open>recordTest\<close>, on the mappings updated so far, and the
  loop, which an exception leaves at once.
\<close>

definition bumpTag :: "string \<Rightarrow> bool \<Rightarrow> Tag \<Rightarrow> Tag" where
  "bumpTag tid c tag =
     (if id_tag tag = tid
      then tag\<lparr>usageCount := jsPlus (usageCount tag) 1,
               successCount := jsPlus (successCount tag) (if c then 1 else 0)\<rparr>
      else tag)"

definition applyUsedTag ::
  "UsedTag \<Rightarrow> (string \<rightharpoonup> NumberMapping) \<Rightarrow> error + (string \<rightharpoonup> NumberMapping)" where
  "applyUsedTag e updatedMappings =
     (case getProperty updatedMappings (numberValue e) of
        Undefined \<Rightarrow> Inr updatedMappings
      | Inherited \<Rightarrow> Inl TypeError
      | Own mapping \<Rightarrow>
          Inr (updatedMappings(numberValue e \<mapsto>
            mapping\<lparr>tags := map (bumpTag (tagId e) (correct e)) (tags mapping)\<rparr>)))"

fun applyUsedTags ::
  "UsedTag list \<Rightarrow> (string \<rightharpoonup> NumberMapping) \<Rightarrow> error + (string \<rightharpoonup> NumberMapping)" where
  "applyUsedTags [] updatedMappings = Inr updatedMappings"
| "applyUsedTags (e # usedTags) updatedMappings =
     (case applyUsedTag e updatedMappings of
        Inl err \<Rightarrow> Inl err
      | Inr next \<Rightarrow> applyUsedTags usedTags next)"

definition recordTest :: "AppState \<Rightarrow> TestResult \<Rightarrow> UsedTag list \<Rightarrow> error + AppState" where
  "recordTest prev result usedTags =
     (case applyUsedTags usedTags (mappings prev) of
        Inl err \<Rightarrow> Inl err
      | Inr updatedMappings \<Rightarrow>
          Inr (prev\<lparr>tests := result # tests prev, mappings := updatedMappings\<rparr>))"


subsection \<open>Statistics\<close>



subsection \<open>Loading the stored state\<close>

text \<open>
  \<^verbatim>\<open>loadState\<close> reads the row of key \<^verbatim>\<open>appState\<close>. The outcome of the SQL statement is either
  an error, for which the statement's error callback resolves the promise with \<^verbatim>\<open>null\<close>, or
  the list of the values of the rows found. With no row the promise resolves with \<^verbatim>\<open>null\<close>;
  otherwise with \<^verbatim>\<open>JSON.parse\<close> of the first value. \<^verbatim>\<open>JSON.parse\<close> is a parameter: it
  returns a JSON value, or throws a \<^verbatim>\<open>SyntaxError\<close> (\<open>None\<close>); nothing in \<^verbatim>\<open>loadState\<close> catches
  it, so the promise is never resolved then.
\<close>

datatype json =
  JNull | JBool bool | JNumber real | JString string | JArray "json list"
| JObject "(string \<times> json) list"

datatype query = SqlError | Rows "string list"

definition loadState :: "(string \<Rightarrow> json option) \<Rightarrow> query \<Rightarrow> error + json" where
  "loadState parse q =
     (case q of
        SqlError \<Rightarrow> Inr JNull
      | Rows [] \<Rightarrow> Inr JNull
      | Rows (stored # _) \<Rightarrow>
          (case parse stored of None \<Rightarrow> Inl SyntaxError | Some v \<Rightarrow> Inr v))"

text \<open>The truth value of a JSON value in a condition.\<close>

fun truthy :: "json \<Rightarrow> bool" where
  "truthy JNull = False"
| "truthy (JBool b) = b"
| "truthy (JNumber x) = (x \<noteq> 0)"
| "truthy (JString s) = (s \<noteq> [])"
| "truthy (JArray xs) = True"
| "truthy (JObject kvs) = True"

text \<open>
  The first effect of \<^verbatim>\<open>AppProvider\<close>: a truthy stored value becomes the state as it is
  (the type assertion \<^verbatim>\<open>as AppState\<close> checks nothing), anything else gives the seed state.
\<close>

datatype hydrated = Seeded AppState | Adopted json

definition hydrate :: "(string \<Rightarrow> json option) \<Rightarrow> query \<Rightarrow> error + hydrated" where
  "hydrate parse q =
     (case loadState parse q of
        Inl e \<Rightarrow> Inl e
      | Inr stored \<Rightarrow>
          if truthy stored then Inr (Adopted stored) else Inr (Seeded seedState))"


section \<open>The practice screen (PracticeScreen.tsx)\<close>

subsection \<open>State of the component\<close>

text \<open>
  \<^verbatim>\<open>selectedTags\<close> and \<^verbatim>\<open>editInputs\<close> are objects whose keys are slot indices. JavaScript
  lists such keys in ascending numeric order, whatever the order of insertion, so the
  object is the list of its entries in that order: \<open>setKey\<close> is the assignment
  \<^verbatim>\<open>{ ...prev, [index]: value }\<close>, \<open>objectKeys\<close> is \<^verbatim>\<open>Object.keys\<close> (the keys as strings),
  \<open>objectEntries\<close> is \<^verbatim>\<open>Object.entries\<close>, and \<open>map_of\<close> reads a key.
\<close>

datatype Phase = Idle | Show | Wait | Input | Review

record Practice =
  difficultySel :: Difficulty
  phase :: Phase
  currentNumber :: string
  inputs :: "string list"
  selectedTags :: "(nat \<times> string) list"
  editInputs :: "(nat \<times> string) list"

definition initialPractice :: Practice where
  "initialPractice =
     \<lparr>difficultySel = Easy, phase = Idle, currentNumber = [], inputs = [],
      selectedTags = [], editInputs = []\<rparr>"

fun setKey :: "nat \<Rightarrow> 'v \<Rightarrow> (nat \<times> 'v) list \<Rightarrow> (nat \<times> 'v) list" where
  "setKey k v [] = [(k, v)]"
| "setKey k v ((k', v') # kvs) =
     (if k < k' then (k, v) # (k', v') # kvs
      else if k = k' then (k, v) # kvs
      else (k', v') # setKey k v kvs)"

definition objectKeys :: "(nat \<times> 'v) list \<Rightarrow> string list" where
  "objectKeys obj = map (\<lambda>(k, v). natString k) obj"

definition objectEntries :: "(nat \<times> 'v) list \<Rightarrow> (string \<times> 'v) list" where
  "objectEntries obj = map (\<lambda>(k, v). (natString k, v)) obj"

text \<open>\<^verbatim>\<open>Number(key)\<close> on the decimal string of a key.\<close>

definition digitValue :: "char \<Rightarrow> nat" where
  "digitValue c = of_char c - 48"

definition numberOf :: "string \<Rightarrow> nat" where
  "numberOf s = foldl (\<lambda>a c. 10 * a + digitValue c) 0 s"

text \<open>
  \<^verbatim>\<open>s[i]\<close> on a string and \<^verbatim>\<open>xs[i]\<close> on an array: \<open>None\<close> is \<^verbatim>\<open>undefined\<close>. Two such values
  are compared with \<^verbatim>\<open>===\<close>, and \<open>keyString\<close> is the string an undefined or defined value
  becomes as a property key or in a template literal.
\<close>

definition charAt :: "string \<Rightarrow> nat \<Rightarrow> string option" where
  "charAt s i = (if i < length s then Some [s ! i] else None)"

definition itemAt :: "'a list \<Rightarrow> nat \<Rightarrow> 'a option" where
  "itemAt xs i = (if i < length xs then Some (xs ! i) else None)"

definition keyString :: "string option \<Rightarrow> string" where
  "keyString v = (case v of None \<Rightarrow> ''undefined'' | Some s \<Rightarrow> s)"

text \<open>
  \<^verbatim>\<open>String.prototype.trim\<close>, on single-byte characters: the white space and line
  terminators below \<open>256\<close> are TAB, LF, VT, FF, CR, SP and NBSP.
\<close>

definition isSpace :: "char \<Rightarrow> bool" where
  "isSpace c \<longleftrightarrow> (of_char c :: nat) \<in> {9, 10, 11, 12, 13, 32, 160}"

definition trim :: "string \<Rightarrow> string" where
  "trim s = rev (dropWhile isSpace (rev (dropWhile isSpace s)))"

subsection \<open>Configuration and random draws\<close>

record Config =
  showTime :: nat
  waitTime :: nat
  digits :: "nat \<times> nat"

fun difficultyConfig :: "Difficulty \<Rightarrow> Config" where
  "difficultyConfig Easy = \<lparr>showTime = 4, waitTime = 2, digits = (3, 5)\<rparr>"
| "difficultyConfig Moderate = \<lparr>showTime = 3, waitTime = 2, digits = (5, 7)\<rparr>"
| "difficultyConfig Hard = \<lparr>showTime = 2, waitTime = 1, digits = (7, 9)\<rparr>"
| "difficultyConfig Expert = \<lparr>showTime = 1, waitTime = 1, digits = (9, 12)\<rparr>"

text \<open>
  \<^verbatim>\<open>randomNumber(digits)\<close>, given the value \<^verbatim>\<open>Math.floor(Math.random() * max)\<close> it drew:
  a natural number below \<open>10 ^ digits\<close>.
\<close>

definition randomNumber :: "nat \<Rightarrow> nat \<Rightarrow> string" where
  "randomNumber n drawn = padStart n (natString drawn)"

subsection \<open>The handlers\<close>

text \<open>
  \<^verbatim>\<open>startTest\<close>, given the number of digits and the value drawn. The two timers it
  schedules are events of the transition system below.
\<close>

definition startTest :: "Practice \<Rightarrow> nat \<Rightarrow> nat \<Rightarrow> Practice" where
  "startTest p n drawn =
     p\<lparr>currentNumber := randomNumber n drawn, inputs := replicate n [],
       selectedTags := [], editInputs := [], phase := Show\<rparr>"

text \<open>The test \<^verbatim>\<open>/^[0-9]?$/\<close>.\<close>

definition digitOrEmpty :: "string \<Rightarrow> bool" where
  "digitOrEmpty v =
     (case v of [] \<Rightarrow> True | [c] \<Rightarrow> c \<in> set ''0123456789'' | _ \<Rightarrow> False)"

text \<open>
  \<^verbatim>\<open>handleInputChange\<close> is bound to the text input of a slot, so its index is below the
  length of \<^verbatim>\<open>inputs\<close>; the transition system calls it with such an index only (beyond the
  length the source would extend the array, which \<open>list_update\<close> does not).
\<close>

definition handleInputChange :: "Practice \<Rightarrow> string \<Rightarrow> nat \<Rightarrow> Practice" where
  "handleInputChange p v index =
     (if \<not> digitOrEmpty v then p
      else
        let nextInputs = (inputs p)[index := v]
        in p\<lparr>inputs := nextInputs,
             phase := (if list_all (\<lambda>digit. length digit = 1) nextInputs then Review else phase p)\<rparr>)"

definition handleSelectTag :: "Practice \<Rightarrow> nat \<Rightarrow> string \<Rightarrow> Practice" where
  "handleSelectTag p index tid = p\<lparr>selectedTags := setKey index tid (selectedTags p)\<rparr>"

definition setEditInput :: "Practice \<Rightarrow> nat \<Rightarrow> string \<Rightarrow> Practice" where
  "setEditInput p index v = p\<lparr>editInputs := setKey index v (editInputs p)\<rparr>"

text \<open>
  \<^verbatim>\<open>handleSaveMapping\<close> changes the application state (through \<^verbatim>\<open>addTag\<close>) and the
  component; \<open>now\<close> is the \<^verbatim>\<open>Date.now()\<close> of \<^verbatim>\<open>addTag\<close>. The test \<^verbatim>\<open>if (tagId)\<close> is the test
  that the id is not the empty string. An exception of the updater of \<^verbatim>\<open>addTag\<close> is the
  result of the handler.
\<close>

definition handleSaveMapping ::
  "AppState \<times> Practice \<Rightarrow> nat \<Rightarrow> string \<Rightarrow> int \<Rightarrow> error + AppState \<times> Practice" where
  "handleSaveMapping ap index lbl now =
     (let app = fst ap; p = snd ap;
          nv = keyString (charAt (currentNumber p) index)
      in if trim lbl = [] then Inr (app, p)
         else
           let (next, tid) = addTag app nv (trim lbl) now
           in case next of
                Inl err \<Rightarrow> Inl err
              | Inr app' \<Rightarrow>
                  if tid \<noteq> [] then Inr (app', p\<lparr>selectedTags := setKey index tid (selectedTags p)\<rparr>)
                  else Inr (app', p))"

text \<open>
  \<^verbatim>\<open>handleFinish\<close>: \<open>now\<close> is \<^verbatim>\<open>Date.now()\<close> and \<open>isoDate\<close> is \<^verbatim>\<open>new Date().toISOString()\<close>.
  The rate is \<^verbatim>\<open>NaN\<close> when the number has no digit (then no slot is correct).
\<close>

definition correctCount :: "Practice \<Rightarrow> nat" where
  "correctCount p =
     length (filter (\<lambda>(digit, index). Some digit = charAt (currentNumber p) index)
       (zip (inputs p) [0 ..< length (inputs p)]))"

definition finishRate :: "Practice \<Rightarrow> rate" where
  "finishRate p =
     (if length (currentNumber p) = 0 then NaN
      else Rate (mathRound
        (jsTimes (jsDivide (of_nat (correctCount p)) (of_nat (length (currentNumber p)))) 100)))"

definition usedTagsOf :: "Practice \<Rightarrow> UsedTag list" where
  "usedTagsOf p =
     map (\<lambda>(index, tid).
        \<lparr>numberValue = keyString (charAt (currentNumber p) (numberOf index)),
         tagId = tid,
         correct = (itemAt (inputs p) (numberOf index) = charAt (currentNumber p) (numberOf index))\<rparr>)
       (objectEntries (selectedTags p))"

definition handleFinish ::
  "AppState \<times> Practice \<Rightarrow> int \<Rightarrow> string \<Rightarrow> error + AppState \<times> Practice" where
  "handleFinish ap now isoDate =
     (let app = fst ap; p = snd ap;
          result = \<lparr>id_test = toString now, date = isoDate, difficulty = difficultySel p,
                    successRate = finishRate p\<rparr>
      in case recordTest app result (usedTagsOf p) of
           Inl err \<Rightarrow> Inl err
         | Inr app' \<Rightarrow> Inr (app', p\<lparr>phase := Idle\<rparr>))"

text \<open>
  What the component derives from its state on each render. The keys it reads in
  \<^verbatim>\<open>state.mappings\<close> are the ten digits and \<^verbatim>\<open>currentNumber[i]\<close>, a single character or
  \<^verbatim>\<open>undefined\<close>: none is a property of \<^verbatim>\<open>Object.prototype\<close> (lemma \<open>slotKey_own\<close>), so these
  reads are reads of the object's own keys.
\<close>

definition isComplete :: "Practice \<Rightarrow> bool" where
  "isComplete p \<longleftrightarrow>
     phase p = Review \<and> length (objectKeys (selectedTags p)) = length (currentNumber p)"

definition slotCorrect :: "Practice \<Rightarrow> nat \<Rightarrow> bool" where
  "slotCorrect p index \<longleftrightarrow> itemAt (inputs p) index = charAt (currentNumber p) index"

definition hasTags :: "AppState \<Rightarrow> string \<Rightarrow> bool" where
  "hasTags app digit \<longleftrightarrow> (case mappings app digit of None \<Rightarrow> False | Some m \<Rightarrow> tags m \<noteq> [])"

definition mappedDigits :: "AppState \<Rightarrow> string list" where
  "mappedDigits app = filter (hasTags app) (map natString [0 ..< 10])"

definition unlocked :: "AppState \<Rightarrow> bool" where
  "unlocked app \<longleftrightarrow> length (mappedDigits app) = 10"

text \<open>
  The chosen string: the keys of \<^verbatim>\<open>selectedTags\<close>, sorted by \<^verbatim>\<open>sort()\<close> with no comparator
  (that is, as strings), each mapped to the label of the first tag with the selected id in
  the mapping of the slot's digit, or to the empty string, and joined with a space.
\<close>

definition joinWith :: "string \<Rightarrow> string list \<Rightarrow> string" where
  "joinWith sep xs = (case xs of [] \<Rightarrow> [] | x # rest \<Rightarrow> x @ concat (map (\<lambda>y. sep @ y) rest))"

definition labelOfKey :: "AppState \<Rightarrow> Practice \<Rightarrow> string \<Rightarrow> string" where
  "labelOfKey app p key =
     (let tid = map_of (selectedTags p) (numberOf key);
          nv = keyString (charAt (currentNumber p) (numberOf key))
      in case mappings app nv of
           None \<Rightarrow> []
         | Some m \<Rightarrow>
             (case find (\<lambda>item. Some (id_tag item) = tid) (tags m) of
                None \<Rightarrow> []
              | Some tag \<Rightarrow> label tag))"

definition chosenString :: "AppState \<Rightarrow> Practice \<Rightarrow> string" where
  "chosenString app p =
     joinWith '' '' (map (labelOfKey app p) (sort (objectKeys (selectedTags p))))"

text \<open>
  \<^verbatim>\<open>testsLast24h\<close>: \<open>now\<close> is \<^verbatim>\<open>Date.now()\<close>, and \<open>getTime\<close> stands for
  \<^verbatim>\<open>new Date(s).getTime()\<close>, with \<open>None\<close> for \<^verbatim>\<open>NaN\<close> (which no comparison satisfies).
\<close>

definition testsLast24h :: "(string \<Rightarrow> int option) \<Rightarrow> AppState \<Rightarrow> int \<Rightarrow> nat" where
  "testsLast24h getTime app now =
     (let cutoff = now - 24 * 60 * 60 * 1000
      in length (filter (\<lambda>test. case getTime (date test) of None \<Rightarrow> False | Some t \<Rightarrow> cutoff \<le> t)
           (tests app)))"


subsection \<open>The session as a transition system\<close>

text \<open>
  A state of the system is the application state, the state of the practice component and
  the timers still pending: each \<^verbatim>\<open>startTest\<close> schedules a timer that sets the phase to
  \<^verbatim>\<open>wait\<close> and schedules a second one, which sets it to \<^verbatim>\<open>input\<close>; no later event cancels
  them. Every rule but the timers' is an action the rendered screen offers: nothing is
  offered while practice is locked; a digit can be typed in the input phase; in the review
  phase a correct slot offers the tags of its digit and an incorrect slot offers the edit
  field and its save button; the finish button is rendered when \<^verbatim>\<open>isComplete\<close> holds. The
  draws of \<^verbatim>\<open>Math.random\<close> and the clock readings are arguments of the rules. The last two
  rules are the mutations made from elsewhere (the number map screen). An updater that throws
  gives no next state. The first state holds whatever application state was hydrated.
\<close>

record World =
  app :: AppState
  practice :: Practice
  waitTimers :: nat
  inputTimers :: nat

inductive reachable :: "World \<Rightarrow> bool" where
  init: "reachable \<lparr>app = a0, practice = initialPractice, waitTimers = 0, inputTimers = 0\<rparr>"
| setDifficulty:
    "reachable w \<Longrightarrow> unlocked (app w) \<Longrightarrow>
     reachable (w\<lparr>practice := (practice w)\<lparr>difficultySel := d\<rparr>\<rparr>)"
| startTest:
    "reachable w \<Longrightarrow> unlocked (app w) \<Longrightarrow>
     fst (digits (difficultyConfig (difficultySel (practice w)))) \<le> n \<Longrightarrow>
     n \<le> snd (digits (difficultyConfig (difficultySel (practice w)))) \<Longrightarrow>
     drawn < 10 ^ n \<Longrightarrow>
     reachable (w\<lparr>practice := startTest (practice w) n drawn, waitTimers := waitTimers w + 1\<rparr>)"
| showTimer:
    "reachable w \<Longrightarrow> 0 < waitTimers w \<Longrightarrow>
     reachable (w\<lparr>practice := (practice w)\<lparr>phase := Wait\<rparr>,
                  waitTimers := waitTimers w - 1, inputTimers := inputTimers w + 1\<rparr>)"
| waitTimer:
    "reachable w \<Longrightarrow> 0 < inputTimers w \<Longrightarrow>
     reachable (w\<lparr>practice := (practice w)\<lparr>phase := Input\<rparr>, inputTimers := inputTimers w - 1\<rparr>)"
| inputChange:
    "reachable w \<Longrightarrow> unlocked (app w) \<Longrightarrow> phase (practice w) = Input \<Longrightarrow>
     index < length (inputs (practice w)) \<Longrightarrow>
     reachable (w\<lparr>practice := handleInputChange (practice w) v index\<rparr>)"
| selectTag:
    "reachable w \<Longrightarrow> unlocked (app w) \<Longrightarrow> phase (practice w) = Review \<Longrightarrow>
     index < length (inputs (practice w)) \<Longrightarrow> slotCorrect (practice w) index \<Longrightarrow>
     mappings (app w) (keyString (charAt (currentNumber (practice w)) index)) = Some m \<Longrightarrow>
     tag \<in> set (tags m) \<Longrightarrow>
     reachable (w\<lparr>practice := handleSelectTag (practice w) index (id_tag tag)\<rparr>)"
| editInput:
    "reachable w \<Longrightarrow> unlocked (app w) \<Longrightarrow> phase (practice w) = Review \<Longrightarrow>
     index < length (inputs (practice w)) \<Longrightarrow> \<not> slotCorrect (practice w) index \<Longrightarrow>
     reachable (w\<lparr>practice := setEditInput (practice w) index v\<rparr>)"
| saveMapping:
    "reachable w \<Longrightarrow> unlocked (app w) \<Longrightarrow> phase (practice w) = Review \<Longrightarrow>
     index < length (inputs (practice w)) \<Longrightarrow> \<not> slotCorrect (practice w) index \<Longrightarrow>
     handleSaveMapping (app w, practice w) index
       (case map_of (editInputs (practice w)) index of None \<Rightarrow> [] | Some v \<Rightarrow> v) now = Inr ap \<Longrightarrow>
     reachable (w\<lparr>app := fst ap, practice := snd ap\<rparr>)"
| finish:
    "reachable w \<Longrightarrow> unlocked (app w) \<Longrightarrow> isComplete (practice w) \<Longrightarrow>
     handleFinish (app w, practice w) now isoDate = Inr ap \<Longrightarrow>
     reachable (w\<lparr>app := fst ap, practice := snd ap\<rparr>)"
| addTagElsewhere:
    "reachable w \<Longrightarrow> fst (addTag (app w) nv lbl now) = Inr a \<Longrightarrow> reachable (w\<lparr>app := a\<rparr>)"
| updateTagElsewhere:
    "reachable w \<Longrightarrow> updateTag (app w) nv tid lbl = Inr a \<Longrightarrow> reachable (w\<lparr>app := a\<rparr>)"



subsection \<open>States reachable from the seed\<close>

inductive reachableApp :: "AppState \<Rightarrow> bool" where
  seed: "reachableApp seedState"
| addTag: "reachableApp s \<Longrightarrow> fst (addTag s nv lbl now) = Inr s' \<Longrightarrow> reachableApp s'"
| updateTag: "reachableApp s \<Longrightarrow> updateTag s nv tid lbl = Inr s' \<Longrightarrow> reachableApp s'"
| recordTest: "reachableApp s \<Longrightarrow> recordTest s result used = Inr s' \<Longrightarrow> reachableApp s'"


section \<open>Vocabulary of the properties\<close>

text \<open>
  An entry of \<^verbatim>\<open>usedTags\<close> matches a tag when it names the tag's mapping key and the tag's
  id; \<open>usageDelta\<close> counts the matching entries and \<open>successDelta\<close> those of them whose flag
  is set. \<open>bumpAll used nv tag\<close> is what the loop of \<^verbatim>\<open>recordTest\<close> makes of a tag under the
  key \<open>nv\<close>: the body's update, once for each entry that names \<open>nv\<close>, in the order of the list.
\<close>

definition matchesEntry :: "string \<Rightarrow> string \<Rightarrow> UsedTag \<Rightarrow> bool" where
  "matchesEntry nv tid = (\<lambda>e. numberValue e = nv \<and> tagId e = tid)"

definition usageDelta :: "UsedTag list \<Rightarrow> string \<Rightarrow> string \<Rightarrow> int" where
  "usageDelta used nv tid = int (length (filter (matchesEntry nv tid) used))"

definition successDelta :: "UsedTag list \<Rightarrow> string \<Rightarrow> string \<Rightarrow> int" where
  "successDelta used nv tid =
     int (length (filter (\<lambda>e. matchesEntry nv tid e \<and> correct e) used))"

definition bumpAll :: "UsedTag list \<Rightarrow> string \<Rightarrow> Tag \<Rightarrow> Tag" where
  "bumpAll used nv =
     fold (\<lambda>e tag. if numberValue e = nv then bumpTag (tagId e) (correct e) tag else tag) used"

text \<open>
  An entry throws when the key it names is answered by \<^verbatim>\<open>Object.prototype\<close> and not by the
  mappings themselves.
\<close>

definition namesInherited :: "AppState \<Rightarrow> UsedTag \<Rightarrow> bool" where
  "namesInherited s e \<longleftrightarrow> getProperty (mappings s) (numberValue e) = Inherited"

definition countersOk :: "Tag \<Rightarrow> bool" where
  "countersOk t \<longleftrightarrow> 0 \<le> successCount t \<and> successCount t \<le> usageCount t"

definition allCountersOk :: "AppState \<Rightarrow> bool" where
  "allCountersOk s \<longleftrightarrow>
     (\<forall>nv m. mappings s nv = Some m \<longrightarrow> (\<forall>t\<in>set (tags m). countersOk t))"

text \<open>
  The invariant of the practice component: one input per digit of the number, and the keys
  of \<^verbatim>\<open>selectedTags\<close> are slot indices, in ascending order without repetition.
\<close>

definition keysSorted :: "(nat \<times> 'v) list \<Rightarrow> bool" where
  "keysSorted obj \<longleftrightarrow> sorted_wrt (<) (map fst obj)"

definition practiceInv :: "Practice \<Rightarrow> bool" where
  "practiceInv p \<longleftrightarrow>
     length (inputs p) = length (currentNumber p) \<and>
     keysSorted (selectedTags p) \<and>
     (\<forall>k\<in>set (map fst (selectedTags p)). k < length (currentNumber p))"



text \<open>Concrete data for the examples.\<close>

definition sampleResult :: TestResult where
  "sampleResult =
     \<lparr>id_test = ''1700000000000'', date = ''2023-11-14T22:13:20.000Z'',
      difficulty = Easy, successRate = Rate 100\<rparr>"

definition sailTag :: Tag where
  "sailTag = \<lparr>id_tag = ''4-1700000000000'', label = ''sail'', usageCount = 0, successCount = 0\<rparr>"

definition fourOnly :: AppState where
  "fourOnly =
     \<lparr>mappings = [''4'' \<mapsto> \<lparr>id_mapping = ''4'', number = ''4'', tags = [sailTag]\<rparr>],
      tests = []\<rparr>"

text \<open>
  The seed state after \<^verbatim>\<open>addTag('7', 'sun')\<close> at the time \<^verbatim>\<open>1700000000000\<close>, and after a test
  that used the new tag with success.
\<close>

definition sevenAdded :: AppState where
  "sevenAdded =
     seedState\<lparr>mappings := (mappings seedState)(''7'' \<mapsto>
       \<lparr>id_mapping = ''7'', number = ''7'',
        tags = [\<lparr>id_tag = ''7-1700000000000'', label = ''sun'', usageCount = 0,
                 successCount = 0\<rparr>]\<rparr>)\<rparr>"

definition sevenUsed :: AppState where
  "sevenUsed =
     sevenAdded\<lparr>tests := [sampleResult],
       mappings := (mappings sevenAdded)(''7'' \<mapsto>
         \<lparr>id_mapping = ''7'', number = ''7'',
          tags = [\<lparr>id_tag = ''7-1700000000000'', label = ''sun'', usageCount = 1,
                   successCount = 1\<rparr>]\<rparr>)\<rparr>"

text \<open>A state whose only tag has been used \<open>n\<close> times.\<close>

definition wornTag :: "int \<Rightarrow> Tag" where
  "wornTag n = \<lparr>id_tag = ''4-1700000000000'', label = ''sail'', usageCount = n, successCount = 0\<rparr>"

definition fourWorn :: "int \<Rightarrow> AppState" where
  "fourWorn n =
     \<lparr>mappings = [''4'' \<mapsto> \<lparr>id_mapping = ''4'', number = ''4'', tags = [wornTag n]\<rparr>],
      tests = []\<rparr>"

text \<open>
  Scenario A of the specification: the seed state after one tag for each single digit,
  added at the time \<^verbatim>\<open>1700000000000\<close> (\<open>addTags\<close> is that sequence of calls of \<^verbatim>\<open>addTag\<close>, and
  lemma \<open>scenarioA_added\<close> says that it gives \<open>scenarioA\<close>). On it, an Easy session with target
  \<^verbatim>\<open>042\<close> and input \<^verbatim>\<open>043\<close>: the first two slots get their tag selected, and the label typed
  for the third, incorrect slot is saved at the time \<^verbatim>\<open>1700000060000\<close>, which gives the
  application state \<open>swanSaved\<close>.
\<close>

definition firstTag :: "string \<Rightarrow> string \<Rightarrow> Tag" where
  "firstTag nv lbl =
     \<lparr>id_tag = nv @ ''-1700000000000'', label = lbl, usageCount = 0, successCount = 0\<rparr>"

definition oneTag :: "string \<Rightarrow> string \<Rightarrow> NumberMapping" where
  "oneTag nv lbl = \<lparr>id_mapping = nv, number = nv, tags = [firstTag nv lbl]\<rparr>"

definition digitLabels :: "(string \<times> string) list" where
  "digitLabels =
     [(''0'', ''sun''), (''1'', ''tie''), (''2'', ''shoe''), (''3'', ''tree''), (''4'', ''door''),
      (''5'', ''hive''), (''6'', ''sticks''), (''7'', ''heaven''), (''8'', ''gate''), (''9'', ''ice'')]"

fun addTags :: "AppState \<Rightarrow> (string \<times> string) list \<Rightarrow> int \<Rightarrow> error + AppState" where
  "addTags s [] now = Inr s"
| "addTags s ((nv, lbl) # rest) now =
     (case fst (addTag s nv lbl now) of
        Inl err \<Rightarrow> Inl err
      | Inr s' \<Rightarrow> addTags s' rest now)"

definition scenarioA :: AppState where
  "scenarioA =
     seedState\<lparr>mappings :=
       fold (\<lambda>(nv, lbl) m. m(nv \<mapsto> oneTag nv lbl)) digitLabels (mappings seedState)\<rparr>"

definition swanSaved :: AppState where
  "swanSaved =
     scenarioA\<lparr>mappings := (mappings scenarioA)(''2'' \<mapsto>
       \<lparr>id_mapping = ''2'', number = ''2'',
        tags = [firstTag ''2'' ''shoe'',
                \<lparr>id_tag = ''2-1700000060000'', label = ''swan'', usageCount = 0,
                  successCount = 0\<rparr>]\<rparr>)\<rparr>"

definition session042 ::
  "Phase \<Rightarrow> string list \<Rightarrow> (nat \<times> string) list \<Rightarrow> (nat \<times> string) list \<Rightarrow> Practice" where
  "session042 ph ins sel ed =
     \<lparr>difficultySel = Easy, phase = ph, currentNumber = ''042'', inputs = ins,
      selectedTags = sel, editInputs = ed\<rparr>"

definition wrongDigitWorld :: World where
  "wrongDigitWorld =
     \<lparr>app = swanSaved,
      practice = session042 Review [''0'', ''4'', ''3'']
        [(0, ''0-1700000000000''), (1, ''4-1700000000000''), (2, ''2-1700000060000'')]
        [(2, ''swan'')],
      waitTimers = 0, inputTimers = 0\<rparr>"


definition beforeSaveWorld :: World where
  "beforeSaveWorld =
     \<lparr>app = scenarioA,
      practice = session042 Review [''0'', ''4'', ''3'']
        [(0, ''0-1700000000000''), (1, ''4-1700000000000'')] [(2, ''swan'')],
      waitTimers = 0, inputTimers = 0\<rparr>"








text \<open>
  An Expert session with the eleven-digit target \<^verbatim>\<open>31415926535\<close>, every digit recalled, and
  a tag selected for the slots 2 and 10.
\<close>

definition session11 :: "Phase \<Rightarrow> string list \<Rightarrow> (nat \<times> string) list \<Rightarrow> Practice" where
  "session11 ph ins sel =
     \<lparr>difficultySel = Expert, phase = ph, currentNumber = ''31415926535'', inputs = ins,
      selectedTags = sel, editInputs = []\<rparr>"

definition elevenDigitWorld :: World where
  "elevenDigitWorld =
     \<lparr>app = scenarioA,
      practice = session11 Review
        [''3'', ''1'', ''4'', ''1'', ''5'', ''9'', ''2'', ''6'', ''5'', ''3'', ''5'']
        [(2, ''4-1700000000000''), (10, ''5-1700000000000'')],
      waitTimers = 0, inputTimers = 0\<rparr>"

text \<open>
  A history whose only test is dated one millisecond after the reference time
  \<^verbatim>\<open>1700000000000\<close>, and a reading of dates that knows this date.
\<close>

definition nearFutureState :: AppState where
  "nearFutureState =
     \<lparr>mappings = Map.empty,
      tests = [\<lparr>id_test = ''1700000000001'', date = ''2023-11-14T22:13:20.001Z'',
               difficulty = Easy, successRate = Rate 100\<rparr>]\<rparr>"

definition sampleClock :: "string \<Rightarrow> int option" where
  "sampleClock s = (if s = ''2023-11-14T22:13:20.001Z'' then Some 1700000000001 else None)"


text \<open>A parser that knows the text \<^verbatim>\<open>{}\<close> and throws on every other, as on \<^verbatim>\<open>{\<close>.\<close>

definition parseBraces :: "string \<Rightarrow> json option" where
  "parseBraces s = (if s = ''{}'' then Some (JObject []) else None)"



section \<open>Doubles\<close>

subsection \<open>The error of a rounding\<close>

lemma pow2_powi: "pow2 e = 2 powi e"
  by (simp add: pow2_def power_int_def inverse_eq_divide power_one_over)

lemma pow2_pos: "0 < pow2 e"
  by (simp add: pow2_powi)

lemma pow2_Suc: "pow2 (e + 1) = 2 * pow2 e"
  by (simp add: pow2_powi power_int_add)

lemma pow2_pred: "pow2 (e - 1) = pow2 e / 2"
  by (simp add: pow2_powi power_int_diff)

lemma pow2_diff52: "pow2 (e - 52) = pow2 e / 2 ^ 52"
  by (simp add: pow2_powi power_int_diff)

lemma binade_bounds: "0 < x \<Longrightarrow> pow2 (binade x) \<le> x \<and> x < 2 * pow2 (binade x)"
proof (induction x rule: binade.induct)
  case (1 x)
  show ?case
  proof (cases "2 \<le> x")
    case True
    with "1.prems" "1.IH"(1) have "pow2 (binade (x / 2)) \<le> x / 2 \<and> x / 2 < 2 * pow2 (binade (x / 2))"
      by simp
    moreover from True "1.prems" have "binade x = binade (x / 2) + 1"
      by (subst binade.simps) simp
    ultimately show ?thesis by (simp add: pow2_Suc)
  next
    case False
    show ?thesis
    proof (cases "x < 1")
      case True
      with False "1.prems" "1.IH"(2) have "pow2 (binade (2 * x)) \<le> 2 * x \<and> 2 * x < 2 * pow2 (binade (2 * x))"
        by simp
      moreover from True False "1.prems" have "binade x = binade (2 * x) - 1"
        by (subst binade.simps) simp
      ultimately show ?thesis by (simp add: pow2_pred)
    next
      case ge: False
      with False "1.prems" have "binade x = 0" by (subst binade.simps) simp
      with ge False show ?thesis by (simp add: pow2_def)
    qed
  qed
qed


lemma roundEven_nonneg: "0 \<le> m \<Longrightarrow> 0 \<le> roundEven m"
  by (auto simp: roundEven_def Let_def)

lemma toDouble_nonneg: "0 \<le> x \<Longrightarrow> 0 \<le> toDouble x"
  by (simp add: toDouble_def Let_def roundEven_nonneg pow2_pos less_imp_le)


lemma pow2_mono: "e \<le> e' \<Longrightarrow> pow2 e \<le> pow2 e'"
  by (simp add: pow2_powi power_int_increasing)

lemma binade_unique:
  assumes x: "0 < x" and lo: "pow2 e \<le> x" and hi: "x < 2 * pow2 e"
  shows "binade x = e"
proof (rule ccontr)
  assume ne: "binade x \<noteq> e"
  from binade_bounds [OF x] have b: "pow2 (binade x) \<le> x" "x < 2 * pow2 (binade x)"
    by simp_all
  show False
  proof (cases "binade x < e")
    case True
    then have "pow2 (binade x + 1) \<le> pow2 e" by (intro pow2_mono) simp
    with b(2) lo show False by (simp add: pow2_Suc)
  next
    case False
    with ne have "pow2 (e + 1) \<le> pow2 (binade x)" by (intro pow2_mono) simp
    with b(1) hi show False by (simp add: pow2_Suc)
  qed
qed

lemma roundEven_of_int: "roundEven (of_int n) = n"
  by (simp add: roundEven_def)

lemma roundEven_mono: "x \<le> y \<Longrightarrow> roundEven x \<le> roundEven y"
proof -
  assume xy: "x \<le> y"
  then have f: "\<lfloor>x\<rfloor> \<le> \<lfloor>y\<rfloor>" by (rule floor_mono)
  have up: "roundEven x \<le> \<lfloor>x\<rfloor> + 1" and down: "\<lfloor>y\<rfloor> \<le> roundEven y"
    by (simp_all add: roundEven_def Let_def)
  show ?thesis
  proof (cases "\<lfloor>x\<rfloor> = \<lfloor>y\<rfloor>")
    case True
    with xy show ?thesis by (auto simp: roundEven_def Let_def)
  next
    case False
    with f have "\<lfloor>x\<rfloor> + 1 \<le> \<lfloor>y\<rfloor>" by simp
    with up down show ?thesis by linarith
  qed
qed

lemma toDouble_zero: "toDouble 0 = 0"
  by (simp add: toDouble_def roundEven_def)

lemma toDouble_of_int:
  assumes n0: "0 \<le> n" and n53: "n \<le> 2 ^ 53"
  shows "toDouble (of_int n) = of_int n"
proof (cases "n = 0")
  case True
  then show ?thesis by (simp add: toDouble_zero)
next
  case False
  with n0 have x: "0 < real_of_int n" by simp
  define b where "b = binade (real_of_int n)"
  from binade_bounds [OF x] have lo: "pow2 b \<le> real_of_int n" by (simp add: b_def)
  have "real_of_int n \<le> real_of_int (2 ^ 53)" using n53 by (simp only: of_int_le_iff)
  then have hi: "real_of_int n \<le> 2 ^ 53" by simp
  have b53: "b \<le> 53"
  proof (rule ccontr)
    assume "\<not> b \<le> 53"
    then have "pow2 54 \<le> pow2 b" by (intro pow2_mono) simp
    moreover have "pow2 54 = 2 ^ 54" by (simp add: pow2_def)
    ultimately show False using lo hi by simp
  qed
  have b0: "0 \<le> b"
  proof (rule ccontr)
    assume "\<not> 0 \<le> b"
    then have "pow2 (b + 1) \<le> pow2 0" by (intro pow2_mono) simp
    moreover from binade_bounds [OF x] have "real_of_int n < pow2 (b + 1)"
      by (simp add: b_def pow2_Suc)
    moreover from False n0 have "1 \<le> n" by simp
    then have "1 \<le> real_of_int n" by simp
    ultimately show False by (simp add: pow2_def)
  qed
  define u where "u = pow2 (b - 52)"
  have u: "0 < u" by (simp add: u_def pow2_pos)
  have "\<exists>k. real_of_int n / u = of_int k"
  proof (cases "b = 53")
    case True
    with lo hi have "real_of_int n = 2 ^ 53" by (simp add: pow2_def)
    moreover from True have "u = 2" by (simp add: u_def pow2_def)
    ultimately have "real_of_int n / u = of_int (2 ^ 52)" by simp
    then show ?thesis ..
  next
    case False
    with b53 have le: "b \<le> 52" by simp
    then have "u = 1 / 2 ^ nat (52 - b)"
      by (cases "b = 52") (simp_all add: u_def pow2_def)
    then have "real_of_int n / u = of_int (n * 2 ^ nat (52 - b))" by simp
    then show ?thesis ..
  qed
  then obtain k where k: "real_of_int n / u = of_int k" ..
  have "toDouble (of_int n) = of_int (roundEven (real_of_int n / u)) * u"
    using x by (simp add: toDouble_def Let_def u_def b_def)
  also have "\<dots> = real_of_int n / u * u" by (simp only: k roundEven_of_int)
  also have "\<dots> = of_int n" using u by simp
  finally show ?thesis .
qed

lemma toDouble_mono:
  assumes x0: "0 \<le> x" and xy: "x \<le> y"
  shows "toDouble x \<le> toDouble y"
proof (cases "x = 0")
  case True
  with xy show ?thesis by (simp add: toDouble_zero toDouble_nonneg)
next
  case False
  with x0 have x: "0 < x" by simp
  with xy have y: "0 < y" by simp
  define bx where "bx = binade x"
  define bz where "bz = binade y"
  from binade_bounds [OF x] have xb: "pow2 bx \<le> x" "x < 2 * pow2 bx" by (simp_all add: bx_def)
  from binade_bounds [OF y] have yb: "pow2 bz \<le> y" "y < 2 * pow2 bz" by (simp_all add: bz_def)
  have tx: "toDouble x = of_int (roundEven (x / pow2 (bx - 52))) * pow2 (bx - 52)"
    using x by (simp add: toDouble_def Let_def bx_def)
  have ty: "toDouble y = of_int (roundEven (y / pow2 (bz - 52))) * pow2 (bz - 52)"
    using y by (simp add: toDouble_def Let_def bz_def)
  have le: "bx \<le> bz"
  proof (rule ccontr)
    assume "\<not> bx \<le> bz"
    then have "pow2 (bz + 1) \<le> pow2 bx" by (intro pow2_mono) simp
    with xb(1) yb(2) xy show False by (simp add: pow2_Suc)
  qed
  show ?thesis
  proof (cases "bx = bz")
    case True
    have "x / pow2 (bz - 52) \<le> y / pow2 (bz - 52)"
      using xy pow2_pos [of "bz - 52"] by (simp add: divide_right_mono)
    then have "roundEven (x / pow2 (bz - 52)) \<le> roundEven (y / pow2 (bz - 52))"
      by (rule roundEven_mono)
    then have "real_of_int (roundEven (x / pow2 (bz - 52))) \<le>
        real_of_int (roundEven (y / pow2 (bz - 52)))"
      by (simp only: of_int_le_iff)
    then show ?thesis
      unfolding tx ty True using pow2_pos [of "bz - 52"] by (intro mult_right_mono) simp_all
  next
    case False
    with le have lt: "bx + 1 \<le> bz" by simp
    have ux: "0 < pow2 (bx - 52)" and uy: "0 < pow2 (bz - 52)" by (rule pow2_pos)+
    have "x / pow2 (bx - 52) \<le> 2 ^ 53"
      using xb(2) pow2_pos [of bx] by (simp add: pow2_diff52 field_simps)
    then have "x / pow2 (bx - 52) \<le> real_of_int (2 ^ 53)" by simp
    then have "roundEven (x / pow2 (bx - 52)) \<le> roundEven (real_of_int (2 ^ 53))"
      by (rule roundEven_mono)
    then have "roundEven (x / pow2 (bx - 52)) \<le> 2 ^ 53" by (simp only: roundEven_of_int)
    then have "real_of_int (roundEven (x / pow2 (bx - 52))) \<le> real_of_int (2 ^ 53)"
      by (simp only: of_int_le_iff)
    then have "toDouble x \<le> real_of_int (2 ^ 53) * pow2 (bx - 52)"
      unfolding tx using ux by (intro mult_right_mono) simp_all
    also have "\<dots> = pow2 (bx + 1)" by (simp add: pow2_diff52 pow2_Suc)
    also have "\<dots> \<le> pow2 bz" using lt by (rule pow2_mono)
    also have "\<dots> = real_of_int (2 ^ 52) * pow2 (bz - 52)" by (simp add: pow2_diff52)
    also have "\<dots> \<le> toDouble y"
    proof -
      have "2 ^ 52 \<le> y / pow2 (bz - 52)"
        using yb(1) pow2_pos [of bz] by (simp add: pow2_diff52 field_simps)
      then have "real_of_int (2 ^ 52) \<le> y / pow2 (bz - 52)" by simp
      then have "roundEven (real_of_int (2 ^ 52)) \<le> roundEven (y / pow2 (bz - 52))"
        by (rule roundEven_mono)
      then have "2 ^ 52 \<le> roundEven (y / pow2 (bz - 52))" by (simp only: roundEven_of_int)
      then have "real_of_int (2 ^ 52) \<le> real_of_int (roundEven (y / pow2 (bz - 52)))"
        by (simp only: of_int_le_iff)
      then show ?thesis
        unfolding ty using uy by (intro mult_right_mono) simp_all
    qed
    finally show ?thesis .
  qed
qed

subsection \<open>The addition on counters\<close>

lemma jsPlus_exact: "0 \<le> a + b \<Longrightarrow> a + b \<le> 2 ^ 53 \<Longrightarrow> jsPlus a b = a + b"
proof -
  assume "0 \<le> a + b" "a + b \<le> 2 ^ 53"
  then have "toDouble (of_int (a + b)) = of_int (a + b)" by (rule toDouble_of_int)
  then have "\<lfloor>toDouble (of_int (a + b))\<rfloor> = a + b" by (simp only: floor_of_int)
  then show ?thesis by (simp add: jsPlus_def)
qed

lemma jsPlus_nonneg: "0 \<le> a + b \<Longrightarrow> 0 \<le> jsPlus a b"
proof -
  assume "0 \<le> a + b"
  then have "0 \<le> real_of_int a + real_of_int b" by (simp flip: of_int_add)
  then have "0 \<le> toDouble (real_of_int a + real_of_int b)" by (rule toDouble_nonneg)
  then show ?thesis by (simp add: jsPlus_def)
qed

lemma jsPlus_mono: "0 \<le> a + b \<Longrightarrow> a + b \<le> c + d \<Longrightarrow> jsPlus a b \<le> jsPlus c d"
proof -
  assume "0 \<le> a + b" "a + b \<le> c + d"
  then have "0 \<le> real_of_int a + real_of_int b"
    "real_of_int a + real_of_int b \<le> real_of_int c + real_of_int d"
    by (simp_all flip: of_int_add)
  then have "toDouble (real_of_int a + real_of_int b) \<le> toDouble (real_of_int c + real_of_int d)"
    by (rule toDouble_mono)
  then show ?thesis unfolding jsPlus_def by (rule floor_mono)
qed

lemma jsPlus_saturated: "jsPlus (2 ^ 53) 1 = 2 ^ 53"
proof -
  have "binade (2 ^ 53 + 1) = 53"
    by (rule binade_unique) (simp_all add: pow2_def)
  then have "toDouble (2 ^ 53 + 1) = 2 ^ 53"
    by (simp add: toDouble_def Let_def pow2_def roundEven_def)
  then show ?thesis by (simp add: jsPlus_def)
qed

section \<open>The mapping store\<close>

subsection \<open>Decimal strings and the seed\<close>

lemma toString_example: "toString 1700000000000 = ''1700000000000''"
  by (simp add: toString_def natString.simps digitChar_def)

lemma natString_digit: "i < 10 \<Longrightarrow> natString i = [digitChar i]"
  by (simp add: natString.simps)

lemma set_generateNumbers:
  "set generateNumbers =
     (\<Union>len\<in>{1, 2, 3}. (\<lambda>i. padStart len (natString i)) ` {0 ..< 10 ^ len})"
  unfolding generateNumbers_def set_concat
  by (simp only: set_map set_upt list.set image_insert image_empty)

lemma digit_in_generateNumbers: "i < 10 \<Longrightarrow> natString i \<in> set generateNumbers"
proof -
  assume i: "i < 10"
  then have "length (natString i) = 1" by (simp add: natString_digit)
  then have "padStart 1 (natString i) = natString i" by (simp add: padStart_def)
  with i have "natString i \<in> (\<lambda>x. padStart 1 (natString x)) ` {0 ..< 10 ^ 1}"
    by (intro image_eqI [of _ _ i]) simp_all
  then show ?thesis
    unfolding set_generateNumbers by blast
qed

lemma fold_upd_at:
  "fold (\<lambda>v m. m(v \<mapsto> f v)) xs m0 k = (if k \<in> set xs then Some (f k) else m0 k)"
  by (induction xs arbitrary: m0) auto

lemma hydrateMappings_at:
  "hydrateMappings nv =
     (if nv \<in> set generateNumbers then Some \<lparr>id_mapping = nv, number = nv, tags = []\<rparr>
      else None)"
  by (simp add: hydrateMappings_def fold_upd_at)

subsection \<open>Reading a key\<close>

lemma getProperty_inherited:
  "getProperty obj key = Inherited \<longleftrightarrow> obj key = None \<and> key \<in> set objectPrototypeKeys"
  by (simp add: getProperty_def split: option.splits)

lemma slotKey_own: "keyString (charAt s i) \<notin> set objectPrototypeKeys"
  by (simp add: keyString_def charAt_def objectPrototypeKeys_def)

lemma getProperty_slotKey:
  "getProperty obj (keyString (charAt s i)) =
     (case obj (keyString (charAt s i)) of None \<Rightarrow> Undefined | Some v \<Rightarrow> Own v)"
  by (simp add: getProperty_def slotKey_own split: option.splits)

subsection \<open>What \<^verbatim>\<open>addTag\<close> and \<^verbatim>\<open>updateTag\<close> do to the mappings\<close>

lemma addTag_own:
  "mappings s nv = Some m \<Longrightarrow>
     addTag s nv lbl now =
       (Inr (s\<lparr>mappings := (mappings s)(nv \<mapsto> m\<lparr>tags := tags m @
                [\<lparr>id_tag = nextIdOf nv now, label = lbl, usageCount = 0, successCount = 0\<rparr>]\<rparr>)\<rparr>),
        nextIdOf nv now)"
  by (simp add: addTag_def addTagState_def getProperty_def Let_def)

lemma addTag_returns: "fst (addTag s nv lbl now) = Inr s' \<Longrightarrow>
     tests s' = tests s \<and>
     (\<forall>k. mappings s' k =
        (if k = nv
         then map_option (\<lambda>m. m\<lparr>tags := tags m @
                [\<lparr>id_tag = nextIdOf nv now, label = lbl, usageCount = 0, successCount = 0\<rparr>]\<rparr>)
                (mappings s k)
         else mappings s k))"
  by (auto simp: addTag_def addTagState_def getProperty_def Let_def
      split: option.splits if_splits)

lemma addTag_slotKey:
  "\<exists>s'. fst (addTag s (keyString (charAt num i)) lbl now) = Inr s'"
  by (simp add: addTag_def addTagState_def getProperty_slotKey Let_def split: option.splits)

lemma updateTag_returns: "updateTag s nv tid lbl = Inr s' \<Longrightarrow>
     tests s' = tests s \<and>
     (\<forall>k. mappings s' k =
        (if k = nv
         then map_option
                (\<lambda>m. m\<lparr>tags := map (\<lambda>tag. if id_tag tag = tid then tag\<lparr>label := lbl\<rparr> else tag)
                   (tags m)\<rparr>)
                (mappings s k)
         else mappings s k))"
  by (auto simp: updateTag_def getProperty_def split: option.splits if_splits)

subsection \<open>What \<^verbatim>\<open>recordTest\<close> does to one key\<close>

lemma bumpAll_Nil: "bumpAll [] nv tag = tag"
  by (simp add: bumpAll_def)

lemma bumpAll_Cons:
  "bumpAll (e # used) nv tag =
     bumpAll used nv (if numberValue e = nv then bumpTag (tagId e) (correct e) tag else tag)"
  by (simp add: bumpAll_def)

lemma id_tag_bumpTag: "id_tag (bumpTag tid c tag) = id_tag tag"
  by (simp add: bumpTag_def)

lemma id_tag_bumpAll: "id_tag (bumpAll used nv tag) = id_tag tag"
  by (induction used arbitrary: tag) (simp_all add: bumpAll_Nil bumpAll_Cons id_tag_bumpTag)

lemma applyUsedTag_result:
  "applyUsedTag e ms =
     (if getProperty ms (numberValue e) = Inherited then Inl TypeError
      else Inr (\<lambda>nv. map_option
        (\<lambda>m. m\<lparr>tags := map (\<lambda>t. if numberValue e = nv then bumpTag (tagId e) (correct e) t else t)
                  (tags m)\<rparr>)
        (ms nv)))"
proof (cases "ms (numberValue e)")
  case None
  show ?thesis
  proof (cases "numberValue e \<in> set objectPrototypeKeys")
    case True
    with None show ?thesis by (simp add: applyUsedTag_def getProperty_def)
  next
    case False
    have "(\<lambda>nv. map_option
        (\<lambda>m. m\<lparr>tags := map (\<lambda>t. if numberValue e = nv then bumpTag (tagId e) (correct e) t else t)
                  (tags m)\<rparr>)
        (ms nv)) = ms"
    proof
      fix nv
      show "map_option
        (\<lambda>m. m\<lparr>tags := map (\<lambda>t. if numberValue e = nv then bumpTag (tagId e) (correct e) t else t)
                  (tags m)\<rparr>)
        (ms nv) = ms nv"
        using None by (cases "numberValue e = nv"; cases "ms nv") simp_all
    qed
    with None False show ?thesis by (simp add: applyUsedTag_def getProperty_def)
  qed
next
  case (Some m)
  have "(\<lambda>nv. map_option
        (\<lambda>m. m\<lparr>tags := map (\<lambda>t. if numberValue e = nv then bumpTag (tagId e) (correct e) t else t)
                  (tags m)\<rparr>)
        (ms nv)) =
      ms(numberValue e \<mapsto> m\<lparr>tags := map (bumpTag (tagId e) (correct e)) (tags m)\<rparr>)"
  proof
    fix nv
    show "map_option
        (\<lambda>m. m\<lparr>tags := map (\<lambda>t. if numberValue e = nv then bumpTag (tagId e) (correct e) t else t)
                  (tags m)\<rparr>)
        (ms nv) =
      (ms(numberValue e \<mapsto> m\<lparr>tags := map (bumpTag (tagId e) (correct e)) (tags m)\<rparr>)) nv"
      using Some by (cases "numberValue e = nv"; cases "ms nv") simp_all
  qed
  with Some show ?thesis by (simp add: applyUsedTag_def getProperty_def)
qed

lemma applyUsedTags_snoc:
  "applyUsedTags (used @ [e]) ms =
     (case applyUsedTags used ms of Inl err \<Rightarrow> Inl err | Inr ms' \<Rightarrow> applyUsedTag e ms')"
  by (induction used arbitrary: ms) (simp_all split: sum.splits)

lemma applyUsedTags_result:
  "applyUsedTags used ms =
     (if \<exists>e\<in>set used. getProperty ms (numberValue e) = Inherited then Inl TypeError
      else Inr (\<lambda>nv. map_option (\<lambda>m. m\<lparr>tags := map (bumpAll used nv) (tags m)\<rparr>) (ms nv)))"
proof (induction used arbitrary: ms)
  case Nil
  have "(\<lambda>nv. map_option (\<lambda>m. m\<lparr>tags := map (bumpAll [] nv) (tags m)\<rparr>) (ms nv)) = ms"
  proof
    fix nv
    show "map_option (\<lambda>m. m\<lparr>tags := map (bumpAll [] nv) (tags m)\<rparr>) (ms nv) = ms nv"
      by (cases "ms nv") (simp_all add: bumpAll_def)
  qed
  then show ?case by simp
next
  case (Cons e used)
  show ?case
  proof (cases "getProperty ms (numberValue e) = Inherited")
    case True
    then show ?thesis by (simp add: applyUsedTag_result)
  next
    case False
    define ms' where "ms' = (\<lambda>nv. map_option
        (\<lambda>m. m\<lparr>tags := map (\<lambda>t. if numberValue e = nv then bumpTag (tagId e) (correct e) t else t)
                  (tags m)\<rparr>)
        (ms nv))"
    from False have step: "applyUsedTag e ms = Inr ms'"
      by (simp add: applyUsedTag_result ms'_def)
    have same: "getProperty ms' k = Inherited \<longleftrightarrow> getProperty ms k = Inherited" for k
      by (simp add: getProperty_inherited ms'_def)
    have maps: "(\<lambda>nv. map_option (\<lambda>m. m\<lparr>tags := map (bumpAll used nv) (tags m)\<rparr>) (ms' nv)) =
        (\<lambda>nv. map_option (\<lambda>m. m\<lparr>tags := map (bumpAll (e # used) nv) (tags m)\<rparr>) (ms nv))"
    proof
      fix nv
      show "map_option (\<lambda>m. m\<lparr>tags := map (bumpAll used nv) (tags m)\<rparr>) (ms' nv) =
          map_option (\<lambda>m. m\<lparr>tags := map (bumpAll (e # used) nv) (tags m)\<rparr>) (ms nv)"
        by (cases "ms nv") (simp_all add: ms'_def bumpAll_def)
    qed
    have "applyUsedTags (e # used) ms = applyUsedTags used ms'"
      by (simp add: step)
    also have "\<dots> =
        (if \<exists>e\<in>set used. getProperty ms' (numberValue e) = Inherited then Inl TypeError
         else Inr (\<lambda>nv. map_option (\<lambda>m. m\<lparr>tags := map (bumpAll used nv) (tags m)\<rparr>) (ms' nv)))"
      by (rule Cons.IH)
    also have "\<dots> =
        (if \<exists>e\<in>set (e # used). getProperty ms (numberValue e) = Inherited then Inl TypeError
         else Inr (\<lambda>nv. map_option (\<lambda>m. m\<lparr>tags := map (bumpAll (e # used) nv) (tags m)\<rparr>) (ms nv)))"
      using False by (simp only: same maps) simp
    finally show ?thesis .
  qed
qed

lemma recordTest_result:
  "recordTest prev result used =
     (if \<exists>e\<in>set used. namesInherited prev e then Inl TypeError
      else Inr (prev\<lparr>tests := result # tests prev,
        mappings := \<lambda>nv. map_option (\<lambda>m. m\<lparr>tags := map (bumpAll used nv) (tags m)\<rparr>)
          (mappings prev nv)\<rparr>))"
  by (simp add: recordTest_def applyUsedTags_result namesInherited_def)

lemma recordTest_snoc:
  "recordTest prev result (used @ [e]) =
     (case recordTest prev result used of
        Inl err \<Rightarrow> Inl err
      | Inr s \<Rightarrow>
          (case applyUsedTag e (mappings s) of
             Inl err \<Rightarrow> Inl err
           | Inr ms \<Rightarrow> Inr (s\<lparr>mappings := ms\<rparr>)))"
  by (simp add: recordTest_def applyUsedTags_snoc split: sum.splits)

lemma bumpAll_unmatched:
  "\<forall>e\<in>set used. \<not> matchesEntry nv (id_tag t) e \<Longrightarrow> bumpAll used nv t = t"
  by (induction used arbitrary: t) (auto simp: bumpAll_Nil bumpAll_Cons bumpTag_def matchesEntry_def)

lemma usageDelta_Cons:
  "usageDelta (e # used) nv tid =
     (if numberValue e = nv \<and> tagId e = tid then 1 else 0) + usageDelta used nv tid"
  by (simp add: usageDelta_def matchesEntry_def)

lemma successDelta_Cons:
  "successDelta (e # used) nv tid =
     (if numberValue e = nv \<and> tagId e = tid \<and> correct e then 1 else 0) + successDelta used nv tid"
  by (simp add: successDelta_def matchesEntry_def)

lemma usageDelta_nonneg: "0 \<le> usageDelta used nv tid"
  by (simp add: usageDelta_def)

lemma successDelta_nonneg: "0 \<le> successDelta used nv tid"
  by (simp add: successDelta_def)

lemma bumpAll_usage:
  "0 \<le> usageCount t \<Longrightarrow> usageCount t + usageDelta used nv (id_tag t) \<le> 2 ^ 53 \<Longrightarrow>
     usageCount (bumpAll used nv t) = usageCount t + usageDelta used nv (id_tag t)"
proof (induction used arbitrary: t)
  case Nil
  show ?case by (simp add: bumpAll_Nil usageDelta_def)
next
  case (Cons e used)
  show ?case
  proof (cases "numberValue e = nv \<and> tagId e = id_tag t")
    case True
    define t' where "t' = bumpTag (tagId e) (correct e) t"
    from Cons.prems usageDelta_nonneg [of used nv "id_tag t"] True
    have "usageCount t + 1 \<le> 2 ^ 53" by (simp add: usageDelta_Cons)
    with Cons.prems(1) have "jsPlus (usageCount t) 1 = usageCount t + 1"
      by (intro jsPlus_exact) simp_all
    with True have u: "usageCount t' = usageCount t + 1" and i: "id_tag t' = id_tag t"
      by (simp_all add: t'_def bumpTag_def)
    from Cons.prems True u i
    have "usageCount (bumpAll used nv t') = usageCount t' + usageDelta used nv (id_tag t')"
      by (intro Cons.IH) (simp_all add: usageDelta_Cons)
    with True u i show ?thesis by (simp add: bumpAll_Cons usageDelta_Cons t'_def)
  next
    case False
    then have "(if numberValue e = nv then bumpTag (tagId e) (correct e) t else t) = t"
      by (auto simp: bumpTag_def)
    with False Cons show ?thesis by (auto simp: bumpAll_Cons usageDelta_Cons)
  qed
qed

lemma bumpAll_success:
  "0 \<le> successCount t \<Longrightarrow> successCount t + successDelta used nv (id_tag t) \<le> 2 ^ 53 \<Longrightarrow>
     successCount (bumpAll used nv t) = successCount t + successDelta used nv (id_tag t)"
proof (induction used arbitrary: t)
  case Nil
  show ?case by (simp add: bumpAll_Nil successDelta_def)
next
  case (Cons e used)
  show ?case
  proof (cases "numberValue e = nv \<and> tagId e = id_tag t")
    case True
    define c :: int where "c = (if correct e then 1 else 0)"
    define t' where "t' = bumpTag (tagId e) (correct e) t"
    have c: "0 \<le> c" by (simp add: c_def)
    from Cons.prems successDelta_nonneg [of used nv "id_tag t"] True
    have "successCount t + c \<le> 2 ^ 53" by (simp add: successDelta_Cons c_def split: if_splits)
    with Cons.prems(1) c have "jsPlus (successCount t) c = successCount t + c"
      by (intro jsPlus_exact) simp_all
    with True have u: "successCount t' = successCount t + c" and i: "id_tag t' = id_tag t"
      by (simp_all add: t'_def bumpTag_def c_def)
    from Cons.prems True u i c
    have "successCount (bumpAll used nv t') = successCount t' + successDelta used nv (id_tag t')"
      by (intro Cons.IH) (simp_all add: successDelta_Cons c_def split: if_splits)
    with True u i show ?thesis by (simp add: bumpAll_Cons successDelta_Cons t'_def c_def)
  next
    case False
    then have "(if numberValue e = nv then bumpTag (tagId e) (correct e) t else t) = t"
      by (auto simp: bumpTag_def)
    with False Cons show ?thesis by (auto simp: bumpAll_Cons successDelta_Cons)
  qed
qed


lemma countersOk_bumpTag: "countersOk t \<Longrightarrow> countersOk (bumpTag tid c t)"
proof -
  assume ok: "countersOk t"
  define d :: int where "d = (if c then 1 else 0)"
  from ok have "0 \<le> successCount t + d" "successCount t + d \<le> usageCount t + 1"
    by (simp_all add: countersOk_def d_def)
  then have "0 \<le> jsPlus (successCount t) d" "jsPlus (successCount t) d \<le> jsPlus (usageCount t) 1"
    by (simp_all add: jsPlus_nonneg jsPlus_mono)
  with ok show ?thesis by (simp add: countersOk_def bumpTag_def d_def)
qed

lemma countersOk_bumpAll: "countersOk t \<Longrightarrow> countersOk (bumpAll used nv t)"
  by (induction used arbitrary: t) (simp_all add: bumpAll_Nil bumpAll_Cons countersOk_bumpTag)

subsection \<open>Adding a tag under a key that does not exist\<close>

text \<open>
  Claim C3, as amended. When \<open>nv\<close> is not a key of \<^verbatim>\<open>mappings\<close>, \<^verbatim>\<open>addTag\<close> still returns the
  id it generated, \<^verbatim>\<open>`${numberValue}-${Date.now()}`\<close>, which is never the empty string: the
  returned value does not tell the caller that nothing was added. The updater leaves the state
  as it was, unless \<open>nv\<close> names a property that every object inherits from
  \<^verbatim>\<open>Object.prototype\<close>: then it throws a \<^verbatim>\<open>TypeError\<close>.
\<close>

theorem addTag_absent_key:
  "mappings prev nv = None \<Longrightarrow>
     snd (addTag prev nv lbl now) = nv @ ''-'' @ toString now \<and>
     snd (addTag prev nv lbl now) \<noteq> [] \<and>
     fst (addTag prev nv lbl now) =
       (if nv \<in> set objectPrototypeKeys then Inl TypeError else Inr prev)"
  by (simp add: addTag_def addTagState_def getProperty_def nextIdOf_def Let_def)

theorem addTag_absent_key_witness:
  "mappings INITIAL_STATE ''7'' = None \<and>
   addTag INITIAL_STATE ''7'' ''sun'' 1700000000000 = (Inr INITIAL_STATE, ''7-1700000000000'') \<and>
   mappings INITIAL_STATE ''toString'' = None \<and>
   addTag INITIAL_STATE ''toString'' ''sun'' 1700000000000 =
     (Inl TypeError, ''toString-1700000000000'')"
proof -
  have h: "mappings INITIAL_STATE ''7'' = None" "mappings INITIAL_STATE ''toString'' = None"
    by (simp_all add: INITIAL_STATE_def)
  have k: "''7'' \<notin> set objectPrototypeKeys" "''toString'' \<in> set objectPrototypeKeys"
    by (simp_all add: objectPrototypeKeys_def)
  from addTag_absent_key [OF h(1), of "''sun''" 1700000000000]
    addTag_absent_key [OF h(2), of "''sun''" 1700000000000]
  show ?thesis
    using h k by (simp add: toString_example prod_eq_iff)
qed

text \<open>
  The claim as stated fails twice. On the initial state, where no key exists, the call for
  \<^verbatim>\<open>7\<close> returns the id \<^verbatim>\<open>7-1700000000000\<close>; and the call for \<^verbatim>\<open>constructor\<close>, which is no key
  either, does not leave the state unchanged: its updater throws.
\<close>

theorem addTag_absent_counterexample:
  "mappings INITIAL_STATE ''7'' = None \<and>
   snd (addTag INITIAL_STATE ''7'' ''sun'' 1700000000000) = ''7-1700000000000'' \<and>
   mappings INITIAL_STATE ''constructor'' = None \<and>
   fst (addTag INITIAL_STATE ''constructor'' ''sun'' 1700000000000) = Inl TypeError"
  by (simp add: INITIAL_STATE_def addTag_def addTagState_def getProperty_def
      objectPrototypeKeys_def nextIdOf_def Let_def toString_example)

subsection \<open>Recording a test\<close>

lemma bumpTag_other: "id_tag t \<noteq> tid \<Longrightarrow> bumpTag tid c t = t"
  by (simp add: bumpTag_def)

lemma bumpTag_exact:
  assumes "id_tag t = tid" "0 \<le> usageCount t" "usageCount t < 2 ^ 53"
    "0 \<le> successCount t" "successCount t < 2 ^ 53"
  shows "bumpTag tid c t =
     t\<lparr>usageCount := usageCount t + 1, successCount := successCount t + (if c then 1 else 0)\<rparr>"
proof -
  from assms have "jsPlus (usageCount t) 1 = usageCount t + 1"
    by (intro jsPlus_exact) simp_all
  moreover from assms have "jsPlus (successCount t) (if c then 1 else 0) =
      successCount t + (if c then 1 else 0)"
    by (intro jsPlus_exact) simp_all
  ultimately show ?thesis using assms(1) by (simp add: bumpTag_def)
qed

text \<open>
  Claim C5, as amended. \<^verbatim>\<open>recordTest\<close> throws a \<^verbatim>\<open>TypeError\<close> when, and only when, some entry of
  \<^verbatim>\<open>usedTags\<close> names a key that the mappings do not have and \<^verbatim>\<open>Object.prototype\<close> does. Otherwise
  it returns a state with the result put in front of \<^verbatim>\<open>tests\<close>, in which a key without a
  mapping stays without one, every mapping keeps its id, its number and the length of its tag
  list, and a tag that no entry matches is unchanged. Adding one entry \<open>e\<close> to the end of the
  list then changes the outcome as follows: an entry that names an inherited key makes the
  call throw; an entry whose key is found nowhere is skipped; otherwise only the mapping of
  the entry's key changes, every tag of it with another id is unchanged (so an entry that
  matches no tag changes nothing), and each tag with the entry's \<^verbatim>\<open>tagId\<close> gets the double
  sums \<^verbatim>\<open>usageCount + 1\<close> and \<^verbatim>\<open>successCount + (correct ? 1 : 0)\<close>, which for counters from 0
  to below \<open>2^53\<close> are the exact \<open>usageCount + 1\<close>, and \<open>successCount + 1\<close> exactly when
  \<^verbatim>\<open>correct\<close> is set.
\<close>

theorem recordTest_each_entry:
  "if \<exists>u\<in>set used. namesInherited prev u
   then recordTest prev result used = Inl TypeError \<and>
        recordTest prev result (used @ [e]) = Inl TypeError
   else \<exists>s. recordTest prev result used = Inr s \<and>
     tests s = result # tests prev \<and>
     (\<forall>nv. case mappings prev nv of
        None \<Rightarrow> mappings s nv = None
      | Some m \<Rightarrow>
          (\<exists>m'. mappings s nv = Some m' \<and>
             id_mapping m' = id_mapping m \<and> number m' = number m \<and>
             length (tags m') = length (tags m) \<and>
             (\<forall>i<length (tags m).
                (\<forall>u\<in>set used. \<not> matchesEntry nv (id_tag (tags m ! i)) u) \<longrightarrow>
                tags m' ! i = tags m ! i))) \<and>
     (case getProperty (mappings s) (numberValue e) of
        Inherited \<Rightarrow> recordTest prev result (used @ [e]) = Inl TypeError
      | Undefined \<Rightarrow> recordTest prev result (used @ [e]) = Inr s
      | Own m \<Rightarrow>
          (\<exists>m'. recordTest prev result (used @ [e]) =
                  Inr (s\<lparr>mappings := (mappings s)(numberValue e \<mapsto> m')\<rparr>) \<and>
             id_mapping m' = id_mapping m \<and> number m' = number m \<and>
             length (tags m') = length (tags m) \<and>
             (\<forall>i<length (tags m).
                (id_tag (tags m ! i) \<noteq> tagId e \<longrightarrow> tags m' ! i = tags m ! i) \<and>
                (id_tag (tags m ! i) = tagId e \<longrightarrow>
                 tags m' ! i =
                   (tags m ! i)\<lparr>usageCount := jsPlus (usageCount (tags m ! i)) 1,
                     successCount :=
                       jsPlus (successCount (tags m ! i)) (if correct e then 1 else 0)\<rparr>) \<and>
                (id_tag (tags m ! i) = tagId e \<and>
                 0 \<le> usageCount (tags m ! i) \<and> usageCount (tags m ! i) < 2 ^ 53 \<and>
                 0 \<le> successCount (tags m ! i) \<and> successCount (tags m ! i) < 2 ^ 53 \<longrightarrow>
                 tags m' ! i =
                   (tags m ! i)\<lparr>usageCount := usageCount (tags m ! i) + 1,
                     successCount := successCount (tags m ! i) + (if correct e then 1 else 0)\<rparr>))))"
proof (cases "\<exists>u\<in>set used. namesInherited prev u")
  case True
  then have "recordTest prev result used = Inl TypeError"
    by (simp add: recordTest_result)
  moreover from this have "recordTest prev result (used @ [e]) = Inl TypeError"
    by (simp add: recordTest_snoc)
  ultimately show ?thesis using True by simp
next
  case False
  define s where "s = prev\<lparr>tests := result # tests prev,
        mappings := \<lambda>nv. map_option (\<lambda>m. m\<lparr>tags := map (bumpAll used nv) (tags m)\<rparr>)
          (mappings prev nv)\<rparr>"
  from False have r: "recordTest prev result used = Inr s"
    by (simp add: recordTest_result s_def)
  have t: "tests s = result # tests prev" by (simp add: s_def)
  have whole: "\<forall>nv. case mappings prev nv of
        None \<Rightarrow> mappings s nv = None
      | Some m \<Rightarrow>
          (\<exists>m'. mappings s nv = Some m' \<and>
             id_mapping m' = id_mapping m \<and> number m' = number m \<and>
             length (tags m') = length (tags m) \<and>
             (\<forall>i<length (tags m).
                (\<forall>u\<in>set used. \<not> matchesEntry nv (id_tag (tags m ! i)) u) \<longrightarrow>
                tags m' ! i = tags m ! i))"
    by (simp add: s_def bumpAll_unmatched split: option.splits)
  have one: "case getProperty (mappings s) (numberValue e) of
        Inherited \<Rightarrow> recordTest prev result (used @ [e]) = Inl TypeError
      | Undefined \<Rightarrow> recordTest prev result (used @ [e]) = Inr s
      | Own m \<Rightarrow>
          (\<exists>m'. recordTest prev result (used @ [e]) =
                  Inr (s\<lparr>mappings := (mappings s)(numberValue e \<mapsto> m')\<rparr>) \<and>
             id_mapping m' = id_mapping m \<and> number m' = number m \<and>
             length (tags m') = length (tags m) \<and>
             (\<forall>i<length (tags m).
                (id_tag (tags m ! i) \<noteq> tagId e \<longrightarrow> tags m' ! i = tags m ! i) \<and>
                (id_tag (tags m ! i) = tagId e \<longrightarrow>
                 tags m' ! i =
                   (tags m ! i)\<lparr>usageCount := jsPlus (usageCount (tags m ! i)) 1,
                     successCount :=
                       jsPlus (successCount (tags m ! i)) (if correct e then 1 else 0)\<rparr>) \<and>
                (id_tag (tags m ! i) = tagId e \<and>
                 0 \<le> usageCount (tags m ! i) \<and> usageCount (tags m ! i) < 2 ^ 53 \<and>
                 0 \<le> successCount (tags m ! i) \<and> successCount (tags m ! i) < 2 ^ 53 \<longrightarrow>
                 tags m' ! i =
                   (tags m ! i)\<lparr>usageCount := usageCount (tags m ! i) + 1,
                     successCount := successCount (tags m ! i) + (if correct e then 1 else 0)\<rparr>)))"
  proof (cases "getProperty (mappings s) (numberValue e)")
    case Inherited
    then show ?thesis by (simp add: recordTest_snoc r applyUsedTag_def)
  next
    case Undefined
    then show ?thesis by (simp add: recordTest_snoc r applyUsedTag_def)
  next
    case (Own m)
    define m' where "m' = m\<lparr>tags := map (bumpTag (tagId e) (correct e)) (tags m)\<rparr>"
    from Own have "recordTest prev result (used @ [e]) =
        Inr (s\<lparr>mappings := (mappings s)(numberValue e \<mapsto> m')\<rparr>)"
      by (simp add: recordTest_snoc r applyUsedTag_def m'_def)
    moreover have "id_mapping m' = id_mapping m" "number m' = number m"
      "length (tags m') = length (tags m)"
      by (simp_all add: m'_def)
    moreover have "\<forall>i<length (tags m).
        (id_tag (tags m ! i) \<noteq> tagId e \<longrightarrow> tags m' ! i = tags m ! i) \<and>
        (id_tag (tags m ! i) = tagId e \<longrightarrow>
         tags m' ! i =
           (tags m ! i)\<lparr>usageCount := jsPlus (usageCount (tags m ! i)) 1,
             successCount :=
               jsPlus (successCount (tags m ! i)) (if correct e then 1 else 0)\<rparr>) \<and>
        (id_tag (tags m ! i) = tagId e \<and>
         0 \<le> usageCount (tags m ! i) \<and> usageCount (tags m ! i) < 2 ^ 53 \<and>
         0 \<le> successCount (tags m ! i) \<and> successCount (tags m ! i) < 2 ^ 53 \<longrightarrow>
         tags m' ! i =
           (tags m ! i)\<lparr>usageCount := usageCount (tags m ! i) + 1,
             successCount := successCount (tags m ! i) + (if correct e then 1 else 0)\<rparr>)"
    proof (intro allI impI conjI)
      fix i assume "i < length (tags m)" "id_tag (tags m ! i) \<noteq> tagId e"
      then show "tags m' ! i = tags m ! i" by (simp add: m'_def bumpTag_other)
    next
      fix i assume "i < length (tags m)" "id_tag (tags m ! i) = tagId e"
      then show "tags m' ! i =
           (tags m ! i)\<lparr>usageCount := jsPlus (usageCount (tags m ! i)) 1,
             successCount :=
               jsPlus (successCount (tags m ! i)) (if correct e then 1 else 0)\<rparr>"
        by (simp add: m'_def bumpTag_def)
    next
      fix i
      assume i: "i < length (tags m)"
        and h: "id_tag (tags m ! i) = tagId e \<and>
         0 \<le> usageCount (tags m ! i) \<and> usageCount (tags m ! i) < 2 ^ 53 \<and>
         0 \<le> successCount (tags m ! i) \<and> successCount (tags m ! i) < 2 ^ 53"
      from h have "bumpTag (tagId e) (correct e) (tags m ! i) =
          (tags m ! i)\<lparr>usageCount := usageCount (tags m ! i) + 1,
             successCount := successCount (tags m ! i) + (if correct e then 1 else 0)\<rparr>"
        by (intro bumpTag_exact) simp_all
      with i show "tags m' ! i =
           (tags m ! i)\<lparr>usageCount := usageCount (tags m ! i) + 1,
             successCount := successCount (tags m ! i) + (if correct e then 1 else 0)\<rparr>"
        by (simp only: m'_def) simp
    qed
    ultimately show ?thesis using Own by (simp only: property.case) blast
  qed
  from r t whole one False show ?thesis by (simp only: if_False) blast
qed

lemma fourOnly_recorded:
  "recordTest fourOnly sampleResult [] = Inr (fourOnly\<lparr>tests := [sampleResult]\<rparr>)"
  by (simp add: recordTest_def fourOnly_def)

lemma fourOnly_keys:
  "getProperty (mappings fourOnly) ''4'' =
     Own \<lparr>id_mapping = ''4'', number = ''4'', tags = [sailTag]\<rparr>"
  "getProperty (mappings fourOnly) ''5'' = Undefined"
  "getProperty (mappings fourOnly) ''constructor'' = Inherited"
  by (simp_all add: getProperty_def fourOnly_def objectPrototypeKeys_def)

theorem recordTest_each_entry_witness:
  "recordTest fourOnly sampleResult [] = Inr (fourOnly\<lparr>tests := [sampleResult]\<rparr>) \<and>
   recordTest fourOnly sampleResult
       ([] @ [\<lparr>numberValue = ''4'', tagId = ''4-1700000000000'', correct = True\<rparr>]) =
     Inr (fourOnly\<lparr>tests := [sampleResult],
       mappings := [''4'' \<mapsto> \<lparr>id_mapping = ''4'', number = ''4'',
           tags = [sailTag\<lparr>usageCount := 1, successCount := 1\<rparr>]\<rparr>]\<rparr>) \<and>
   recordTest fourOnly sampleResult
       ([] @ [\<lparr>numberValue = ''5'', tagId = ''5-1700000000000'', correct = True\<rparr>]) =
     Inr (fourOnly\<lparr>tests := [sampleResult]\<rparr>) \<and>
   recordTest fourOnly sampleResult
       ([] @ [\<lparr>numberValue = ''constructor'', tagId = ''4-1700000000000'', correct = True\<rparr>]) =
     Inl TypeError \<and>
   (\<exists>s. recordTest fourOnly sampleResult
          [\<lparr>numberValue = ''4'', tagId = ''4-1700000060000'', correct = True\<rparr>] = Inr s \<and>
      mappings s ''4'' = Some \<lparr>id_mapping = ''4'', number = ''4'', tags = [sailTag]\<rparr>)"
proof -
  let ?s = "fourOnly\<lparr>tests := [sampleResult]\<rparr>"
  from recordTest_each_entry [of "[]" fourOnly sampleResult
      "\<lparr>numberValue = ''4'', tagId = ''4-1700000000000'', correct = True\<rparr>"]
  obtain m' where
    r: "recordTest fourOnly sampleResult
       ([] @ [\<lparr>numberValue = ''4'', tagId = ''4-1700000000000'', correct = True\<rparr>]) =
       Inr (?s\<lparr>mappings := (mappings ?s)(''4'' \<mapsto> m')\<rparr>)"
    and m: "id_mapping m' = ''4''" "number m' = ''4''" "length (tags m') = 1"
      "tags m' ! 0 = sailTag\<lparr>usageCount := 1, successCount := 1\<rparr>"
    by (auto simp: fourOnly_recorded fourOnly_keys sailTag_def)
  from m have "tags m' = [sailTag\<lparr>usageCount := 1, successCount := 1\<rparr>]"
    by (cases "tags m'") simp_all
  with m have "m' = \<lparr>id_mapping = ''4'', number = ''4'',
           tags = [sailTag\<lparr>usageCount := 1, successCount := 1\<rparr>]\<rparr>"
    by (cases m') simp
  with r have a: "recordTest fourOnly sampleResult
       ([] @ [\<lparr>numberValue = ''4'', tagId = ''4-1700000000000'', correct = True\<rparr>]) =
     Inr (fourOnly\<lparr>tests := [sampleResult],
       mappings := [''4'' \<mapsto> \<lparr>id_mapping = ''4'', number = ''4'',
           tags = [sailTag\<lparr>usageCount := 1, successCount := 1\<rparr>]\<rparr>]\<rparr>)"
    by (simp add: fourOnly_def)
  from recordTest_each_entry [of "[]" fourOnly sampleResult
      "\<lparr>numberValue = ''5'', tagId = ''5-1700000000000'', correct = True\<rparr>"]
  have b: "recordTest fourOnly sampleResult
       ([] @ [\<lparr>numberValue = ''5'', tagId = ''5-1700000000000'', correct = True\<rparr>]) = Inr ?s"
    by (auto simp: fourOnly_recorded fourOnly_keys)
  from recordTest_each_entry [of "[]" fourOnly sampleResult
      "\<lparr>numberValue = ''constructor'', tagId = ''4-1700000000000'', correct = True\<rparr>"]
  have c: "recordTest fourOnly sampleResult
       ([] @ [\<lparr>numberValue = ''constructor'', tagId = ''4-1700000000000'', correct = True\<rparr>]) =
     Inl TypeError"
    by (auto simp: fourOnly_recorded fourOnly_keys)
  have four: "mappings fourOnly ''4'' = Some \<lparr>id_mapping = ''4'', number = ''4'', tags = [sailTag]\<rparr>"
    by (simp add: fourOnly_def)
  have own: "\<not> (\<exists>u\<in>set [\<lparr>numberValue = ''4'', tagId = ''4-1700000060000'', correct = True\<rparr>].
      namesInherited fourOnly u)"
    by (simp add: namesInherited_def fourOnly_keys)
  from recordTest_each_entry [of "[\<lparr>numberValue = ''4'', tagId = ''4-1700000060000'', correct = True\<rparr>]"
      fourOnly sampleResult "\<lparr>numberValue = ''4'', tagId = ''4-1700000000000'', correct = True\<rparr>"]
  obtain s where s: "recordTest fourOnly sampleResult
          [\<lparr>numberValue = ''4'', tagId = ''4-1700000060000'', correct = True\<rparr>] = Inr s"
    and all: "\<forall>nv. case mappings fourOnly nv of
        None \<Rightarrow> mappings s nv = None
      | Some m \<Rightarrow>
          (\<exists>m'. mappings s nv = Some m' \<and>
             id_mapping m' = id_mapping m \<and> number m' = number m \<and>
             length (tags m') = length (tags m) \<and>
             (\<forall>i<length (tags m).
                (\<forall>u\<in>set [\<lparr>numberValue = ''4'', tagId = ''4-1700000060000'', correct = True\<rparr>].
                    \<not> matchesEntry nv (id_tag (tags m ! i)) u) \<longrightarrow>
                tags m' ! i = tags m ! i))"
    by (simp only: own if_False) blast
  from all [rule_format, of "''4''"] obtain n' where
    n: "mappings s ''4'' = Some n'" "id_mapping n' = ''4''" "number n' = ''4''"
      "length (tags n') = 1" "tags n' ! 0 = sailTag"
    by (auto simp: four matchesEntry_def sailTag_def)
  from n have "tags n' = [sailTag]" by (cases "tags n'") simp_all
  with n have "n' = \<lparr>id_mapping = ''4'', number = ''4'', tags = [sailTag]\<rparr>"
    by (cases n') simp
  with s n(1) have d: "\<exists>s. recordTest fourOnly sampleResult
          [\<lparr>numberValue = ''4'', tagId = ''4-1700000060000'', correct = True\<rparr>] = Inr s \<and>
      mappings s ''4'' = Some \<lparr>id_mapping = ''4'', number = ''4'', tags = [sailTag]\<rparr>"
    by blast
  from a b c d fourOnly_recorded show ?thesis by (intro conjI)
qed

text \<open>
  The claim as stated fails twice. A tag whose \<^verbatim>\<open>usageCount\<close> is \<open>2^53\<close> is matched by an entry
  and keeps its count, since \<open>2^53 + 1\<close> is \<open>2^53\<close> in doubles: the state changes in its tests
  only. And an entry for the key \<^verbatim>\<open>constructor\<close>, which no mapping has, is not skipped: the
  call throws.
\<close>

theorem recordTest_entry_counterexample:
  "recordTest (fourWorn (2 ^ 53)) sampleResult
       [\<lparr>numberValue = ''4'', tagId = ''4-1700000000000'', correct = False\<rparr>] =
     Inr ((fourWorn (2 ^ 53))\<lparr>tests := [sampleResult]\<rparr>) \<and>
   mappings fourOnly ''constructor'' = None \<and>
   recordTest fourOnly sampleResult
       [\<lparr>numberValue = ''constructor'', tagId = ''4-1700000000000'', correct = True\<rparr>] =
     Inl TypeError"
proof -
  have "jsPlus 0 0 = 0" by (simp add: jsPlus_exact)
  then have "bumpTag ''4-1700000000000'' False (wornTag (2 ^ 53)) = wornTag (2 ^ 53)"
    using jsPlus_saturated by (simp add: bumpTag_def wornTag_def)
  then have "recordTest (fourWorn (2 ^ 53)) sampleResult
       [\<lparr>numberValue = ''4'', tagId = ''4-1700000000000'', correct = False\<rparr>] =
     Inr ((fourWorn (2 ^ 53))\<lparr>tests := [sampleResult]\<rparr>)"
    by (simp add: recordTest_def applyUsedTag_def getProperty_def fourWorn_def)
  moreover have "mappings fourOnly ''constructor'' = None" by (simp add: fourOnly_def)
  moreover have "recordTest fourOnly sampleResult
       [\<lparr>numberValue = ''constructor'', tagId = ''4-1700000000000'', correct = True\<rparr>] =
     Inl TypeError"
    by (simp add: recordTest_def applyUsedTag_def getProperty_def fourOnly_def
        objectPrototypeKeys_def)
  ultimately show ?thesis by blast
qed

text \<open>
  Claim C10, as amended. Increments accumulate: when no entry of \<^verbatim>\<open>usedTags\<close> names an
  inherited key, \<^verbatim>\<open>recordTest\<close> returns a state in which the tag at each position of an existing
  mapping is the old tag after the update of every entry that names its key, one after the
  other. So its \<^verbatim>\<open>usageCount\<close> is raised by the number of entries that name its key and its
  id, as long as the raised count does not exceed \<open>2^53\<close>, and its \<^verbatim>\<open>successCount\<close> by the
  number of those entries whose \<^verbatim>\<open>correct\<close> flag is set, under the same bound.
\<close>

theorem recordTest_accumulates:
  assumes "mappings prev nv = Some m" and "\<forall>u\<in>set used. \<not> namesInherited prev u"
  shows "\<exists>s m'. recordTest prev result used = Inr s \<and> mappings s nv = Some m' \<and>
           length (tags m') = length (tags m) \<and>
           (\<forall>i<length (tags m).
              tags m' ! i = bumpAll used nv (tags m ! i) \<and>
              id_tag (tags m' ! i) = id_tag (tags m ! i) \<and>
              (0 \<le> usageCount (tags m ! i) \<and>
               usageCount (tags m ! i) +
                 int (length (filter (\<lambda>u. numberValue u = nv \<and> tagId u = id_tag (tags m ! i)) used))
                 \<le> 2 ^ 53 \<longrightarrow>
               usageCount (tags m' ! i) =
                 usageCount (tags m ! i) +
                 int (length (filter (\<lambda>u. numberValue u = nv \<and> tagId u = id_tag (tags m ! i)) used))) \<and>
              (0 \<le> successCount (tags m ! i) \<and>
               successCount (tags m ! i) +
                 int (length (filter (\<lambda>u. numberValue u = nv \<and> tagId u = id_tag (tags m ! i) \<and>
                        correct u) used))
                 \<le> 2 ^ 53 \<longrightarrow>
               successCount (tags m' ! i) =
                 successCount (tags m ! i) +
                 int (length (filter (\<lambda>u. numberValue u = nv \<and> tagId u = id_tag (tags m ! i) \<and>
                        correct u) used))))"
proof -
  define s where "s = prev\<lparr>tests := result # tests prev,
        mappings := \<lambda>nv. map_option (\<lambda>m. m\<lparr>tags := map (bumpAll used nv) (tags m)\<rparr>)
          (mappings prev nv)\<rparr>"
  define m' where "m' = m\<lparr>tags := map (bumpAll used nv) (tags m)\<rparr>"
  from assms(2) have "recordTest prev result used = Inr s"
    by (simp add: recordTest_result s_def)
  moreover from assms(1) have "mappings s nv = Some m'" by (simp add: s_def m'_def)
  moreover have "length (tags m') = length (tags m)" by (simp add: m'_def)
  moreover have "\<forall>i<length (tags m).
      tags m' ! i = bumpAll used nv (tags m ! i) \<and>
      id_tag (tags m' ! i) = id_tag (tags m ! i) \<and>
      (0 \<le> usageCount (tags m ! i) \<and>
       usageCount (tags m ! i) +
         int (length (filter (\<lambda>u. numberValue u = nv \<and> tagId u = id_tag (tags m ! i)) used))
         \<le> 2 ^ 53 \<longrightarrow>
       usageCount (tags m' ! i) =
         usageCount (tags m ! i) +
         int (length (filter (\<lambda>u. numberValue u = nv \<and> tagId u = id_tag (tags m ! i)) used))) \<and>
      (0 \<le> successCount (tags m ! i) \<and>
       successCount (tags m ! i) +
         int (length (filter (\<lambda>u. numberValue u = nv \<and> tagId u = id_tag (tags m ! i) \<and>
                correct u) used))
         \<le> 2 ^ 53 \<longrightarrow>
       successCount (tags m' ! i) =
         successCount (tags m ! i) +
         int (length (filter (\<lambda>u. numberValue u = nv \<and> tagId u = id_tag (tags m ! i) \<and>
                correct u) used)))"
  proof (intro allI impI conjI)
    fix i assume "i < length (tags m)"
    then show "tags m' ! i = bumpAll used nv (tags m ! i)"
      by (simp add: m'_def)
  next
    fix i assume "i < length (tags m)"
    then show "id_tag (tags m' ! i) = id_tag (tags m ! i)"
      by (simp add: m'_def id_tag_bumpAll)
  next
    fix i
    assume i: "i < length (tags m)"
      and h: "0 \<le> usageCount (tags m ! i) \<and>
       usageCount (tags m ! i) +
         int (length (filter (\<lambda>u. numberValue u = nv \<and> tagId u = id_tag (tags m ! i)) used))
         \<le> 2 ^ 53"
    from h have "usageCount (bumpAll used nv (tags m ! i)) =
        usageCount (tags m ! i) + usageDelta used nv (id_tag (tags m ! i))"
      by (intro bumpAll_usage) (simp_all add: usageDelta_def matchesEntry_def)
    with i show "usageCount (tags m' ! i) =
         usageCount (tags m ! i) +
         int (length (filter (\<lambda>u. numberValue u = nv \<and> tagId u = id_tag (tags m ! i)) used))"
      by (simp add: m'_def usageDelta_def matchesEntry_def)
  next
    fix i
    assume i: "i < length (tags m)"
      and h: "0 \<le> successCount (tags m ! i) \<and>
       successCount (tags m ! i) +
         int (length (filter (\<lambda>u. numberValue u = nv \<and> tagId u = id_tag (tags m ! i) \<and>
                correct u) used))
         \<le> 2 ^ 53"
    from h have "successCount (bumpAll used nv (tags m ! i)) =
        successCount (tags m ! i) + successDelta used nv (id_tag (tags m ! i))"
      by (intro bumpAll_success) (simp_all add: successDelta_def matchesEntry_def)
    with i show "successCount (tags m' ! i) =
         successCount (tags m ! i) +
         int (length (filter (\<lambda>u. numberValue u = nv \<and> tagId u = id_tag (tags m ! i) \<and>
                correct u) used))"
      by (simp add: m'_def successDelta_def matchesEntry_def)
  qed
  ultimately show ?thesis by blast
qed

theorem recordTest_accumulates_witness:
  "mappings fourOnly ''4'' = Some \<lparr>id_mapping = ''4'', number = ''4'', tags = [sailTag]\<rparr> \<and>
   (\<exists>s m'. recordTest fourOnly sampleResult
        [\<lparr>numberValue = ''4'', tagId = ''4-1700000000000'', correct = True\<rparr>,
         \<lparr>numberValue = ''4'', tagId = ''4-1700000000000'', correct = False\<rparr>,
         \<lparr>numberValue = ''4'', tagId = ''4-1700000000000'', correct = True\<rparr>] = Inr s \<and>
      mappings s ''4'' = Some m' \<and> length (tags m') = 1 \<and>
      usageCount (tags m' ! 0) = 3 \<and> successCount (tags m' ! 0) = 2)"
proof -
  have h: "mappings fourOnly ''4'' = Some \<lparr>id_mapping = ''4'', number = ''4'', tags = [sailTag]\<rparr>"
    by (simp add: fourOnly_def)
  have n: "\<forall>u\<in>set [\<lparr>numberValue = ''4'', tagId = ''4-1700000000000'', correct = True\<rparr>,
         \<lparr>numberValue = ''4'', tagId = ''4-1700000000000'', correct = False\<rparr>,
         \<lparr>numberValue = ''4'', tagId = ''4-1700000000000'', correct = True\<rparr>].
       \<not> namesInherited fourOnly u"
    by (simp add: namesInherited_def getProperty_def fourOnly_def)
  show ?thesis
    using h recordTest_accumulates [OF h n, of sampleResult]
    by (auto simp: sailTag_def)
qed

text \<open>
  The claim as stated fails twice. A tag whose \<^verbatim>\<open>usageCount\<close> is \<open>2^53 - 1\<close> is matched by two
  entries and ends at \<open>2^53\<close>, one more and not two. And a list with one matching entry and
  one entry for the key \<^verbatim>\<open>constructor\<close> raises no counter at all: the call throws.
\<close>

theorem recordTest_accumulates_counterexample:
  "recordTest (fourWorn (2 ^ 53 - 1)) sampleResult
       [\<lparr>numberValue = ''4'', tagId = ''4-1700000000000'', correct = False\<rparr>,
        \<lparr>numberValue = ''4'', tagId = ''4-1700000000000'', correct = False\<rparr>] =
     Inr ((fourWorn (2 ^ 53))\<lparr>tests := [sampleResult]\<rparr>) \<and>
   recordTest fourOnly sampleResult
       [\<lparr>numberValue = ''4'', tagId = ''4-1700000000000'', correct = True\<rparr>,
        \<lparr>numberValue = ''constructor'', tagId = ''4-1700000000000'', correct = True\<rparr>] =
     Inl TypeError"
proof -
  have z: "jsPlus 0 0 = 0" by (simp add: jsPlus_exact)
  have "jsPlus (2 ^ 53 - 1) 1 = 2 ^ 53 - 1 + 1" by (rule jsPlus_exact) simp_all
  then have "jsPlus (2 ^ 53 - 1) 1 = 2 ^ 53" by simp
  with z have one: "bumpTag ''4-1700000000000'' False (wornTag (2 ^ 53 - 1)) = wornTag (2 ^ 53)"
    by (simp add: bumpTag_def wornTag_def)
  from z have two: "bumpTag ''4-1700000000000'' False (wornTag (2 ^ 53)) = wornTag (2 ^ 53)"
    using jsPlus_saturated by (simp add: bumpTag_def wornTag_def)
  have "recordTest (fourWorn (2 ^ 53 - 1)) sampleResult
       [\<lparr>numberValue = ''4'', tagId = ''4-1700000000000'', correct = False\<rparr>,
        \<lparr>numberValue = ''4'', tagId = ''4-1700000000000'', correct = False\<rparr>] =
     Inr ((fourWorn (2 ^ 53))\<lparr>tests := [sampleResult]\<rparr>)"
    using one two by (simp add: recordTest_def applyUsedTag_def getProperty_def fourWorn_def)
  moreover have "recordTest fourOnly sampleResult
       [\<lparr>numberValue = ''4'', tagId = ''4-1700000000000'', correct = True\<rparr>,
        \<lparr>numberValue = ''constructor'', tagId = ''4-1700000000000'', correct = True\<rparr>] =
     Inl TypeError"
    by (simp add: recordTest_def applyUsedTag_def getProperty_def fourOnly_def
        objectPrototypeKeys_def)
  ultimately show ?thesis by blast
qed

subsection \<open>The counters of reachable states\<close>

lemma allCountersOk_seed: "allCountersOk seedState"
  by (auto simp: allCountersOk_def seedState_def hydrateMappings_at split: if_splits)

lemma allCountersOk_addTag:
  "allCountersOk s \<Longrightarrow> fst (addTag s nv lbl now) = Inr s' \<Longrightarrow> allCountersOk s'"
  unfolding allCountersOk_def
proof (intro allI impI ballI)
  fix k m t
  assume ok: "\<forall>nv m. mappings s nv = Some m \<longrightarrow> (\<forall>t\<in>set (tags m). countersOk t)"
    and a: "fst (addTag s nv lbl now) = Inr s'"
    and m: "mappings s' k = Some m" and t: "t \<in> set (tags m)"
  from addTag_returns [OF a] m
  have "mappings s k = Some m \<or>
    (\<exists>m0. mappings s k = Some m0 \<and>
       tags m = tags m0 @
         [\<lparr>id_tag = nextIdOf nv now, label = lbl, usageCount = 0, successCount = 0\<rparr>])"
    by (auto split: if_splits)
  with ok t show "countersOk t" by (auto simp: countersOk_def)
qed

lemma allCountersOk_updateTag:
  "allCountersOk s \<Longrightarrow> updateTag s nv tid lbl = Inr s' \<Longrightarrow> allCountersOk s'"
  unfolding allCountersOk_def
proof (intro allI impI ballI)
  fix k m t
  assume ok: "\<forall>nv m. mappings s nv = Some m \<longrightarrow> (\<forall>t\<in>set (tags m). countersOk t)"
    and a: "updateTag s nv tid lbl = Inr s'"
    and m: "mappings s' k = Some m" and t: "t \<in> set (tags m)"
  from updateTag_returns [OF a] m
  have "mappings s k = Some m \<or>
    (\<exists>m0. mappings s k = Some m0 \<and>
       tags m = map (\<lambda>tag. if id_tag tag = tid then tag\<lparr>label := lbl\<rparr> else tag) (tags m0))"
    by (auto split: if_splits)
  with ok t show "countersOk t" by (auto simp: countersOk_def)
qed

lemma allCountersOk_recordTest:
  "allCountersOk s \<Longrightarrow> recordTest s result used = Inr s' \<Longrightarrow> allCountersOk s'"
  by (auto simp: allCountersOk_def recordTest_result countersOk_bumpAll split: if_splits)

lemma reachableApp_allCountersOk: "reachableApp s \<Longrightarrow> allCountersOk s"
  by (induction rule: reachableApp.induct)
     (auto intro: allCountersOk_seed allCountersOk_addTag allCountersOk_updateTag
        allCountersOk_recordTest)

lemma seven_in_generateNumbers: "''7'' \<in> set generateNumbers"
  using digit_in_generateNumbers [of 7] by (simp add: natString_digit digitChar_def)

lemma seed_seven:
  "mappings seedState ''7'' = Some \<lparr>id_mapping = ''7'', number = ''7'', tags = []\<rparr>"
  by (simp add: seedState_def hydrateMappings_at seven_in_generateNumbers)

lemma sevenAdded_added: "fst (addTag seedState ''7'' ''sun'' 1700000000000) = Inr sevenAdded"
  by (simp add: addTag_own [OF seed_seven] sevenAdded_def nextIdOf_def toString_example)

lemma sevenUsed_recorded:
  "recordTest sevenAdded sampleResult
     [\<lparr>numberValue = ''7'', tagId = ''7-1700000000000'', correct = True\<rparr>] = Inr sevenUsed"
proof -
  have "jsPlus 0 1 = 1" by (simp add: jsPlus_exact)
  then show ?thesis
    by (simp add: recordTest_def applyUsedTag_def getProperty_def bumpTag_def sevenUsed_def
        sevenAdded_def seedState_def INITIAL_STATE_def)
qed

lemma mappings_sevenUsed:
  "mappings sevenUsed ''7'' =
     Some \<lparr>id_mapping = ''7'', number = ''7'',
           tags = [\<lparr>id_tag = ''7-1700000000000'', label = ''sun'', usageCount = 1,
                    successCount = 1\<rparr>]\<rparr>"
  by (simp add: sevenUsed_def)

text \<open>
  Claim C6. In every state reached from the seed state by \<^verbatim>\<open>addTag\<close>, \<^verbatim>\<open>updateTag\<close> and
  \<^verbatim>\<open>recordTest\<close>, every tag of every mapping has \<open>0 \<le> successCount \<le> usageCount\<close>.
\<close>

theorem reachable_counters:
  "reachableApp s \<Longrightarrow> mappings s nv = Some m \<Longrightarrow> t \<in> set (tags m) \<Longrightarrow>
     0 \<le> successCount t \<and> successCount t \<le> usageCount t"
  using reachableApp_allCountersOk [of s]
  by (auto simp: allCountersOk_def countersOk_def)

theorem reachable_counters_witness:
  "reachableApp sevenUsed \<and>
   mappings sevenUsed ''7'' =
     Some \<lparr>id_mapping = ''7'', number = ''7'',
           tags = [\<lparr>id_tag = ''7-1700000000000'', label = ''sun'', usageCount = 1,
                    successCount = 1\<rparr>]\<rparr> \<and>
   0 \<le> successCount \<lparr>id_tag = ''7-1700000000000'', label = ''sun'', usageCount = 1,
                    successCount = 1\<rparr> \<and>
   successCount \<lparr>id_tag = ''7-1700000000000'', label = ''sun'', usageCount = 1,
                    successCount = 1\<rparr> \<le>
   usageCount \<lparr>id_tag = ''7-1700000000000'', label = ''sun'', usageCount = 1,
                    successCount = 1\<rparr>"
proof -
  have "reachableApp sevenAdded"
    using reachableApp.seed sevenAdded_added by (rule reachableApp.addTag)
  then have r: "reachableApp sevenUsed"
    using sevenUsed_recorded by (rule reachableApp.recordTest)
  have t: "\<lparr>id_tag = ''7-1700000000000'', label = ''sun'', usageCount = 1, successCount = 1\<rparr>
      \<in> set (tags \<lparr>id_mapping = ''7'', number = ''7'',
           tags = [\<lparr>id_tag = ''7-1700000000000'', label = ''sun'', usageCount = 1,
                    successCount = 1\<rparr>]\<rparr>)"
    by simp
  from reachable_counters [OF r mappings_sevenUsed t] r mappings_sevenUsed
  show ?thesis by blast
qed

section \<open>The test session\<close>

subsection \<open>Objects keyed by slot index\<close>

lemma keys_setKey: "set (map fst (setKey k v obj)) = insert k (set (map fst obj))"
  by (induction obj) force+

lemma keysSorted_setKey: "keysSorted obj \<Longrightarrow> keysSorted (setKey k v obj)"
  unfolding keysSorted_def
proof (induction obj)
  case Nil
  show ?case by simp
next
  case (Cons kv obj)
  obtain k' v' where kv: "kv = (k', v')" by (cases kv)
  from Cons.prems have tl: "sorted_wrt (<) (map fst obj)"
    and hd: "\<forall>x\<in>set (map fst obj). k' < x"
    by (simp_all add: kv)
  show ?case
  proof (cases "k < k'")
    case True
    with Cons.prems show ?thesis by (auto simp: kv)
  next
    case False
    show ?thesis
    proof (cases "k = k'")
      case True
      with Cons.prems show ?thesis by (auto simp: kv)
    next
      case ne: False
      with False have "k' < k" by simp
      with hd have "\<forall>x\<in>set (map fst (setKey k v obj)). k' < x"
        by (simp only: keys_setKey) simp
      with Cons.IH [OF tl] False ne show ?thesis
        by (simp add: kv)
    qed
  qed
qed

lemma map_of_setKey:
  "keysSorted obj \<Longrightarrow> map_of (setKey k v obj) = (map_of obj)(k \<mapsto> v)"
  unfolding keysSorted_def
proof (induction obj)
  case Nil
  show ?case by simp
next
  case (Cons kv obj)
  obtain k' v' where kv: "kv = (k', v')" by (cases kv)
  from Cons.prems have tl: "sorted_wrt (<) (map fst obj)" by simp
  show ?case
    using Cons.IH [OF tl] by (auto simp: kv fun_eq_iff)
qed

lemma length_natString_le: "n < 10 ^ k \<Longrightarrow> 0 < k \<Longrightarrow> length (natString n) \<le> k"
proof (induction n arbitrary: k rule: natString.induct)
  case (1 n)
  show ?case
  proof (cases "n < 10")
    case True
    with "1.prems" show ?thesis by (simp add: natString.simps)
  next
    case False
    with "1.prems" obtain j where k: "k = Suc j" by (cases k) auto
    from False "1.prems" have "0 < j" by (cases j) (auto simp: k)
    moreover from "1.prems" have "n div 10 < 10 ^ j"
      by (simp add: k less_mult_imp_div_less mult.commute)
    ultimately have "length (natString (n div 10)) \<le> j" using "1.IH" False by simp
    with False show ?thesis by (subst natString.simps) (simp add: k)
  qed
qed

lemma length_randomNumber: "drawn < 10 ^ n \<Longrightarrow> 0 < n \<Longrightarrow> length (randomNumber n drawn) = n"
  using length_natString_le [of drawn n] by (simp add: randomNumber_def padStart_def)

lemma digits_min_positive: "0 < fst (digits (difficultyConfig d))"
  by (cases d) simp_all

lemma practiceInv_initial: "practiceInv initialPractice"
  by (simp add: practiceInv_def initialPractice_def keysSorted_def)

lemma practiceInv_startTest:
  "drawn < 10 ^ n \<Longrightarrow> 0 < n \<Longrightarrow> practiceInv (startTest p n drawn)"
  by (simp add: practiceInv_def startTest_def keysSorted_def length_randomNumber)

lemma practiceInv_phase: "practiceInv p \<Longrightarrow> practiceInv (p\<lparr>phase := ph\<rparr>)"
  by (simp add: practiceInv_def)

lemma practiceInv_difficulty: "practiceInv p \<Longrightarrow> practiceInv (p\<lparr>difficultySel := d\<rparr>)"
  by (simp add: practiceInv_def)

lemma practiceInv_inputChange: "practiceInv p \<Longrightarrow> practiceInv (handleInputChange p v index)"
  by (simp add: practiceInv_def handleInputChange_def Let_def)

lemma practiceInv_setKey:
  "practiceInv p \<Longrightarrow> index < length (inputs p) \<Longrightarrow>
     practiceInv (p\<lparr>selectedTags := setKey index tid (selectedTags p)\<rparr>)"
  by (simp add: practiceInv_def keysSorted_setKey keys_setKey del: set_map)

lemma practiceInv_editInput: "practiceInv p \<Longrightarrow> practiceInv (setEditInput p index v)"
  by (simp add: practiceInv_def setEditInput_def)

lemma practiceInv_saveMapping:
  "practiceInv p \<Longrightarrow> index < length (inputs p) \<Longrightarrow>
     handleSaveMapping (a, p) index lbl now = Inr ap \<Longrightarrow> practiceInv (snd ap)"
  by (auto simp: handleSaveMapping_def Let_def practiceInv_setKey
      split: prod.splits sum.splits if_splits)

lemma practiceInv_finish:
  "practiceInv p \<Longrightarrow> handleFinish (a, p) now isoDate = Inr ap \<Longrightarrow> practiceInv (snd ap)"
  by (auto simp: handleFinish_def Let_def practiceInv_phase split: sum.splits)

lemma reachable_practiceInv: "reachable w \<Longrightarrow> practiceInv (practice w)"
proof (induction rule: reachable.induct)
  case (startTest w n drawn)
  from startTest(3) digits_min_positive [of "difficultySel (practice w)"] have "0 < n" by simp
  with startTest show ?case by (simp add: practiceInv_startTest)
next
  case (saveMapping w index now ap)
  from saveMapping(7,4,6) have "practiceInv (snd ap)" by (rule practiceInv_saveMapping)
  then show ?case by simp
next
  case (finish w now isoDate ap)
  from finish(5,4) have "practiceInv (snd ap)" by (rule practiceInv_finish)
  then show ?case by simp
qed (simp_all add: practiceInv_initial practiceInv_phase practiceInv_difficulty
       practiceInv_inputChange practiceInv_setKey practiceInv_editInput handleSelectTag_def)

lemma complete_keys:
  assumes inv: "practiceInv p" and len: "length (selectedTags p) = length (currentNumber p)"
    and i: "i < length (currentNumber p)"
  shows "map_of (selectedTags p) i \<noteq> None"
proof -
  let ?ks = "map fst (selectedTags p)"
  from inv have "sorted_wrt (<) ?ks" by (simp add: practiceInv_def keysSorted_def)
  then have "distinct ?ks" by (simp add: strict_sorted_iff)
  then have "card (set ?ks) = length ?ks"
    by (rule distinct_card)
  with len have "card (set ?ks) = length (currentNumber p)"
    by simp
  moreover from inv have "set ?ks \<subseteq> {..<length (currentNumber p)}"
    by (auto simp: practiceInv_def)
  ultimately have "set ?ks = {..<length (currentNumber p)}"
    by (intro card_subset_eq) simp_all
  with i have "i \<in> set ?ks" by simp
  then show ?thesis by (simp add: map_of_eq_None_iff)
qed

lemma digitValue_digitChar: "d < 10 \<Longrightarrow> digitValue (digitChar d) = d"
proof -
  assume "d < 10"
  then have "d \<in> {0, 1, 2, 3, 4, 5, 6, 7, 8, 9}" by auto
  then show ?thesis
    by (auto simp: digitValue_def digitChar_def)
qed

lemma numberOf_snoc: "numberOf (s @ [c]) = 10 * numberOf s + digitValue c"
  by (simp add: numberOf_def)

lemma numberOf_natString: "numberOf (natString n) = n"
proof (induction n rule: natString.induct)
  case (1 n)
  show ?case
  proof (cases "n < 10")
    case True
    then show ?thesis
      by (simp add: natString.simps numberOf_def digitValue_digitChar)
  next
    case False
    with 1 have "numberOf (natString (n div 10)) = n div 10" by simp
    with False show ?thesis
      by (subst natString.simps) (simp add: numberOf_snoc digitValue_digitChar)
  qed
qed




lemma saveMapping_result:
  assumes "trim lbl \<noteq> []"
  shows "\<exists>a'. fst (addTag a (keyString (charAt (currentNumber p) index)) (trim lbl) now) = Inr a' \<and>
     handleSaveMapping (a, p) index lbl now =
       Inr (a', p\<lparr>selectedTags :=
          setKey index (nextIdOf (keyString (charAt (currentNumber p) index)) now) (selectedTags p)\<rparr>)"
proof -
  from addTag_slotKey [of a "currentNumber p" index "trim lbl" now]
  obtain a' where a': "fst (addTag a (keyString (charAt (currentNumber p) index)) (trim lbl) now) = Inr a'"
    ..
  moreover have "snd (addTag a (keyString (charAt (currentNumber p) index)) (trim lbl) now) =
      nextIdOf (keyString (charAt (currentNumber p) index)) now"
    by (simp add: addTag_def Let_def)
  moreover have "nextIdOf (keyString (charAt (currentNumber p) index)) now \<noteq> []"
    by (simp add: nextIdOf_def)
  ultimately show ?thesis
    using assms by (auto simp: handleSaveMapping_def Let_def split: prod.splits)
qed



subsection \<open>The example session\<close>

lemma digit_strings: "map natString [0 ..< 10] = map (\<lambda>c. [c]) ''0123456789''"
  by (simp add: natString.simps digitChar_def upt_rec)


lemma digit_strings_generated: "d \<in> set (map natString [0 ..< 10]) \<Longrightarrow> d \<in> set generateNumbers"
  using digit_in_generateNumbers by auto

lemma seed_digit:
  "d \<in> set (map natString [0 ..< 10]) \<Longrightarrow>
     mappings seedState d = Some \<lparr>id_mapping = d, number = d, tags = []\<rparr>"
  by (simp add: seedState_def hydrateMappings_at digit_strings_generated del: set_map set_upt)

lemma scenarioA_0: "mappings scenarioA ''0'' = Some (oneTag ''0'' ''sun'')"
  by (simp add: scenarioA_def digitLabels_def)

lemma scenarioA_2: "mappings scenarioA ''2'' = Some (oneTag ''2'' ''shoe'')"
  by (simp add: scenarioA_def digitLabels_def)

lemma scenarioA_4: "mappings scenarioA ''4'' = Some (oneTag ''4'' ''door'')"
  by (simp add: scenarioA_def digitLabels_def)

lemma scenarioA_5: "mappings scenarioA ''5'' = Some (oneTag ''5'' ''hive'')"
  by (simp add: scenarioA_def digitLabels_def)

lemma addTag_first:
  assumes "mappings s d = Some \<lparr>id_mapping = d, number = d, tags = []\<rparr>"
  shows "fst (addTag s d lbl 1700000000000) = Inr (s\<lparr>mappings := (mappings s)(d \<mapsto> oneTag d lbl)\<rparr>)"
  by (simp add: addTag_own [OF assms] nextIdOf_def toString_example oneTag_def firstTag_def)

lemma scenarioA_added: "addTags seedState digitLabels 1700000000000 = Inr scenarioA"
proof -
  have seed: "mappings seedState [c] = Some \<lparr>id_mapping = [c], number = [c], tags = []\<rparr>"
    if "c \<in> set ''0123456789''" for c
    using that seed_digit [of "[c]"] unfolding digit_strings by auto
  show ?thesis
    unfolding digitLabels_def scenarioA_def
    by (simp add: addTag_first seed)
qed

lemma hasTags_scenarioA: "d \<in> set (map natString [0 ..< 10]) \<Longrightarrow> hasTags scenarioA d"
proof -
  have "list_all (hasTags scenarioA) (map (\<lambda>c. [c]) ''0123456789'')"
    by (simp add: hasTags_def scenarioA_def digitLabels_def oneTag_def)
  then show "d \<in> set (map natString [0 ..< 10]) \<Longrightarrow> hasTags scenarioA d"
    unfolding digit_strings list_all_iff by blast
qed


lemma all_of_filter_length:
  "length (filter P xs) = length xs \<Longrightarrow> x \<in> set xs \<Longrightarrow> P x"
  using length_filter_less [of x xs P] by auto

lemma unlocked_iff: "unlocked s \<longleftrightarrow> (\<forall>d\<in>set (map natString [0 ..< 10]). hasTags s d)"
proof
  assume "unlocked s"
  then have "length (filter (hasTags s) (map natString [0 ..< 10])) = length (map natString [0 ..< 10])"
    by (simp add: unlocked_def mappedDigits_def del: map_map)
  then show "\<forall>d\<in>set (map natString [0 ..< 10]). hasTags s d"
    by (intro ballI) (rule all_of_filter_length)
next
  assume "\<forall>d\<in>set (map natString [0 ..< 10]). hasTags s d"
  then have "filter (hasTags s) (map natString [0 ..< 10]) = map natString [0 ..< 10]"
    by (simp only: filter_id_conv)
  then show "unlocked s"
    by (simp add: unlocked_def mappedDigits_def del: map_map)
qed


lemma unlocked_scenarioA: "unlocked scenarioA"
  unfolding unlocked_iff by (intro ballI) (rule hasTags_scenarioA)

lemma swanSaved_saved: "fst (addTag scenarioA ''2'' ''swan'' 1700000060000) = Inr swanSaved"
  by (simp add: addTag_own [OF scenarioA_2] swanSaved_def oneTag_def nextIdOf_def)
     (simp add: toString_def natString.simps digitChar_def)

lemma randomNumber_042: "randomNumber 3 42 = ''042''"
  by (simp add: randomNumber_def padStart_def natString.simps digitChar_def)

lemma replicate_3: "replicate 3 x = [x, x, x]"
  by (simp add: numeral_3_eq_3)

lemma toString_later: "toString 1700000060000 = ''1700000060000''"
  by (simp add: toString_def natString.simps digitChar_def)

lemma reach_start:
  "reachable \<lparr>app = scenarioA, practice = session042 Show ['''', '''', ''''] [] [],
     waitTimers = 1, inputTimers = 0\<rparr>"
proof -
  have r: "reachable \<lparr>app = scenarioA, practice = initialPractice, waitTimers = 0, inputTimers = 0\<rparr>"
    by (rule reachable.init)
  from reachable.startTest [OF r, of 3 42] show ?thesis
    by (simp add: unlocked_scenarioA initialPractice_def startTest_def randomNumber_042
        session042_def replicate_3)
qed

lemma reach_input:
  "reachable \<lparr>app = scenarioA, practice = session042 Input ['''', '''', ''''] [] [],
     waitTimers = 0, inputTimers = 0\<rparr>"
proof -
  from reachable.showTimer [OF reach_start]
  have "reachable \<lparr>app = scenarioA, practice = session042 Wait ['''', '''', ''''] [] [],
     waitTimers = 0, inputTimers = 1\<rparr>"
    by (simp add: session042_def)
  from reachable.waitTimer [OF this] show ?thesis
    by (simp add: session042_def)
qed

lemma reach_review:
  "reachable \<lparr>app = scenarioA, practice = session042 Review [''0'', ''4'', ''3''] [] [],
     waitTimers = 0, inputTimers = 0\<rparr>"
proof -
  from reachable.inputChange [OF reach_input, of 0 "''0''"]
  have "reachable \<lparr>app = scenarioA, practice = session042 Input [''0'', '''', ''''] [] [],
     waitTimers = 0, inputTimers = 0\<rparr>"
    by (simp add: unlocked_scenarioA session042_def handleInputChange_def digitOrEmpty_def)
  from reachable.inputChange [OF this, of 1 "''4''"]
  have "reachable \<lparr>app = scenarioA, practice = session042 Input [''0'', ''4'', ''''] [] [],
     waitTimers = 0, inputTimers = 0\<rparr>"
    by (simp add: unlocked_scenarioA session042_def handleInputChange_def digitOrEmpty_def)
  from reachable.inputChange [OF this, of 2 "''3''"] show ?thesis
    by (simp add: unlocked_scenarioA session042_def handleInputChange_def digitOrEmpty_def)
qed

lemma reach_selected:
  "reachable \<lparr>app = scenarioA, practice = session042 Review [''0'', ''4'', ''3'']
       [(0, ''0-1700000000000''), (1, ''4-1700000000000'')] [],
     waitTimers = 0, inputTimers = 0\<rparr>"
proof -
  from reachable.selectTag [OF reach_review, of 0 "oneTag ''0'' ''sun''" "firstTag ''0'' ''sun''"]
  have "reachable \<lparr>app = scenarioA, practice = session042 Review [''0'', ''4'', ''3'']
       [(0, ''0-1700000000000'')] [],
     waitTimers = 0, inputTimers = 0\<rparr>"
    by (simp add: unlocked_scenarioA session042_def slotCorrect_def itemAt_def charAt_def
        keyString_def scenarioA_0 oneTag_def firstTag_def handleSelectTag_def)
  from reachable.selectTag [OF this, of 1 "oneTag ''4'' ''door''" "firstTag ''4'' ''door''"]
  show ?thesis
    by (simp add: unlocked_scenarioA session042_def slotCorrect_def itemAt_def charAt_def
        keyString_def scenarioA_4 oneTag_def firstTag_def handleSelectTag_def)
qed

lemma save_swan:
  "handleSaveMapping
     (scenarioA, session042 Review [''0'', ''4'', ''3'']
        [(0, ''0-1700000000000''), (1, ''4-1700000000000'')] [(2, ''swan'')])
     2 ''swan'' 1700000060000 =
   Inr (swanSaved, session042 Review [''0'', ''4'', ''3'']
        [(0, ''0-1700000000000''), (1, ''4-1700000000000''), (2, ''2-1700000060000'')]
        [(2, ''swan'')])"
proof -
  have k: "keyString (charAt ''042'' 2) = ''2''" by (simp add: keyString_def charAt_def)
  have t: "trim ''swan'' = ''swan''" by (simp add: trim_def isSpace_def)
  have i: "nextIdOf ''2'' 1700000060000 = ''2-1700000060000''"
    by (simp add: nextIdOf_def toString_later)
  have "addTag scenarioA ''2'' ''swan'' 1700000060000 = (Inr swanSaved, ''2-1700000060000'')"
    using swanSaved_saved i by (simp add: prod_eq_iff addTag_def Let_def)
  then show ?thesis
    by (simp add: handleSaveMapping_def Let_def session042_def k t)
qed

lemma reach_beforeSaveWorld: "reachable beforeSaveWorld"
proof -
  from reachable.editInput [OF reach_selected, of 2 "''swan''"]
  show ?thesis
    by (simp add: unlocked_scenarioA session042_def slotCorrect_def itemAt_def charAt_def
        setEditInput_def beforeSaveWorld_def)
qed

lemma save_beforeSaveWorld:
  "handleSaveMapping (app beforeSaveWorld, practice beforeSaveWorld) 2 ''swan'' 1700000060000 =
     Inr (app wrongDigitWorld, practice wrongDigitWorld)"
  using save_swan by (simp add: beforeSaveWorld_def wrongDigitWorld_def)

lemma reach_wrongDigitWorld: "reachable wrongDigitWorld"
proof -
  have e: "map_of (editInputs (practice beforeSaveWorld)) 2 = Some ''swan''"
    by (simp add: beforeSaveWorld_def session042_def)
  have "reachable (beforeSaveWorld\<lparr>app := fst (app wrongDigitWorld, practice wrongDigitWorld),
      practice := snd (app wrongDigitWorld, practice wrongDigitWorld)\<rparr>)"
  proof (rule reachable.saveMapping [OF reach_beforeSaveWorld, of 2 1700000060000])
    show "unlocked (app beforeSaveWorld)" by (simp add: beforeSaveWorld_def unlocked_scenarioA)
    show "phase (practice beforeSaveWorld) = Review" by (simp add: beforeSaveWorld_def session042_def)
    show "2 < length (inputs (practice beforeSaveWorld))"
      by (simp add: beforeSaveWorld_def session042_def)
    show "\<not> slotCorrect (practice beforeSaveWorld) 2"
      by (simp add: beforeSaveWorld_def session042_def slotCorrect_def itemAt_def charAt_def)
    show "handleSaveMapping (app beforeSaveWorld, practice beforeSaveWorld) 2
        (case map_of (editInputs (practice beforeSaveWorld)) 2 of None \<Rightarrow> [] | Some v \<Rightarrow> v)
        1700000060000 = Inr (app wrongDigitWorld, practice wrongDigitWorld)"
      by (simp only: e option.case save_beforeSaveWorld)
  qed
  then show ?thesis by (simp add: beforeSaveWorld_def wrongDigitWorld_def)
qed

lemma complete_wrongDigitWorld: "isComplete (practice wrongDigitWorld)"
  by (simp add: wrongDigitWorld_def session042_def isComplete_def objectKeys_def)




subsection \<open>The finish gate\<close>

text \<open>
  Claim C1, as amended. In every reachable state, the finish control is enabled only in the
  review phase and only when every slot has a selection recorded. An incorrect slot does get
  one: in every reachable state, saving a label that is not blank through the edit path
  returns, and records the id returned by \<^verbatim>\<open>addTag\<close> as the selection of that slot, whether
  or not the slot's input equals the target digit.
\<close>

theorem finish_gate:
  assumes "reachable w"
  shows "(isComplete (practice w) \<longrightarrow>
            phase (practice w) = Review \<and>
            (\<forall>i<length (inputs (practice w)). map_of (selectedTags (practice w)) i \<noteq> None)) \<and>
         (\<forall>index lbl now. trim lbl \<noteq> [] \<longrightarrow>
            (\<exists>ap. handleSaveMapping (app w, practice w) index lbl now = Inr ap \<and>
               map_of (selectedTags (snd ap)) index =
                 Some (nextIdOf (keyString (charAt (currentNumber (practice w)) index)) now)))"
proof (intro conjI impI allI)
  assume "isComplete (practice w)"
  then show "phase (practice w) = Review" by (simp add: isComplete_def)
next
  fix i
  assume c: "isComplete (practice w)" and i: "i < length (inputs (practice w))"
  from assms have inv: "practiceInv (practice w)" by (rule reachable_practiceInv)
  from c have "length (selectedTags (practice w)) = length (currentNumber (practice w))"
    by (simp add: isComplete_def objectKeys_def)
  moreover from inv i have "i < length (currentNumber (practice w))"
    by (simp add: practiceInv_def)
  ultimately show "map_of (selectedTags (practice w)) i \<noteq> None"
    using inv by (intro complete_keys)
next
  fix index lbl now
  assume l: "trim lbl \<noteq> []"
  from assms have srt: "keysSorted (selectedTags (practice w))"
    using reachable_practiceInv by (simp add: practiceInv_def)
  from saveMapping_result [OF l, of "app w" "practice w" index now]
  obtain a' where "handleSaveMapping (app w, practice w) index lbl now =
      Inr (a', (practice w)\<lparr>selectedTags :=
          setKey index (nextIdOf (keyString (charAt (currentNumber (practice w)) index)) now)
            (selectedTags (practice w))\<rparr>)"
    by blast
  with srt show "\<exists>ap. handleSaveMapping (app w, practice w) index lbl now = Inr ap \<and>
      map_of (selectedTags (snd ap)) index =
        Some (nextIdOf (keyString (charAt (currentNumber (practice w)) index)) now)"
    by (simp add: map_of_setKey)
qed

theorem finish_gate_witness:
  "reachable wrongDigitWorld \<and> isComplete (practice wrongDigitWorld) \<and>
   phase (practice wrongDigitWorld) = Review \<and>
   map_of (selectedTags (practice wrongDigitWorld)) 0 \<noteq> None \<and>
   map_of (selectedTags (practice wrongDigitWorld)) 1 \<noteq> None \<and>
   map_of (selectedTags (practice wrongDigitWorld)) 2 \<noteq> None \<and>
   trim ''swan'' \<noteq> [] \<and>
   (\<exists>ap. handleSaveMapping (app wrongDigitWorld, practice wrongDigitWorld)
            2 ''swan'' 1700000060000 = Inr ap \<and>
      map_of (selectedTags (snd ap)) 2 = Some ''2-1700000060000'')"
proof -
  have len: "length (inputs (practice wrongDigitWorld)) = 3"
    by (simp add: wrongDigitWorld_def session042_def)
  have t: "trim ''swan'' \<noteq> []"
    by (simp add: trim_def isSpace_def)
  have k: "nextIdOf (keyString (charAt (currentNumber (practice wrongDigitWorld)) 2)) 1700000060000 =
      ''2-1700000060000''"
    by (simp add: wrongDigitWorld_def session042_def charAt_def keyString_def nextIdOf_def
        toString_later)
  from finish_gate [OF reach_wrongDigitWorld] complete_wrongDigitWorld t
  have "phase (practice wrongDigitWorld) = Review"
    "\<forall>i<3. map_of (selectedTags (practice wrongDigitWorld)) i \<noteq> None"
    "\<exists>ap. handleSaveMapping (app wrongDigitWorld, practice wrongDigitWorld)
            2 ''swan'' 1700000060000 = Inr ap \<and>
      map_of (selectedTags (snd ap)) 2 = Some ''2-1700000060000''"
    by (simp_all only: len k [symmetric]) blast+
  with reach_wrongDigitWorld complete_wrongDigitWorld t show ?thesis by simp
qed

text \<open>
  The claim as stated fails: the session with target \<^verbatim>\<open>042\<close> and input \<^verbatim>\<open>043\<close> reaches a state
  where the finish control is enabled although the third slot is incorrect.
\<close>

theorem finish_gate_counterexample:
  "reachable wrongDigitWorld \<and>
   inputs (practice wrongDigitWorld) ! 2 = ''3'' \<and>
   currentNumber (practice wrongDigitWorld) ! 2 = CHR ''2'' \<and>
   isComplete (practice wrongDigitWorld)"
  by (simp add: reach_wrongDigitWorld complete_wrongDigitWorld)
     (simp add: wrongDigitWorld_def session042_def)




subsection \<open>The evidence handed over at finish\<close>
















subsection \<open>The chosen string\<close>

lemma randomNumber_eleven: "randomNumber 11 31415926535 = ''31415926535''"
  by (simp add: randomNumber_def padStart_def natString.simps digitChar_def)

lemma replicate_11: "replicate 11 x = [x, x, x, x, x, x, x, x, x, x, x]"
  by (simp add: eval_nat_numeral)

lemma reach_eleven_input:
  "reachable \<lparr>app = scenarioA, practice = session11 Input
       ['''', '''', '''', '''', '''', '''', '''', '''', '''', '''', '''']
       [],
     waitTimers = 0, inputTimers = 0\<rparr>"
proof -
  have "reachable \<lparr>app = scenarioA, practice = initialPractice, waitTimers = 0, inputTimers = 0\<rparr>"
    by (rule reachable.init)
  from reachable.setDifficulty [OF this, of Expert]
  have "reachable \<lparr>app = scenarioA, practice = initialPractice\<lparr>difficultySel := Expert\<rparr>,
      waitTimers = 0, inputTimers = 0\<rparr>"
    by (simp add: unlocked_scenarioA)
  from reachable.startTest [OF this, of 11 31415926535]
  have "reachable \<lparr>app = scenarioA, practice = session11 Show
       ['''', '''', '''', '''', '''', '''', '''', '''', '''', '''', '''']
       [],
     waitTimers = 1, inputTimers = 0\<rparr>"
    by (simp add: unlocked_scenarioA initialPractice_def startTest_def randomNumber_eleven
        session11_def replicate_11)
  from reachable.showTimer [OF this]
  have "reachable \<lparr>app = scenarioA, practice = session11 Wait
       ['''', '''', '''', '''', '''', '''', '''', '''', '''', '''', '''']
       [],
     waitTimers = 0, inputTimers = 1\<rparr>"
    by (simp add: session11_def)
  from reachable.waitTimer [OF this] show ?thesis
    by (simp add: session11_def)
qed

lemma reach_eleven_review:
  "reachable \<lparr>app = scenarioA, practice = session11 Review
       [''3'', ''1'', ''4'', ''1'', ''5'', ''9'', ''2'', ''6'', ''5'', ''3'', ''5'']
       [],
     waitTimers = 0, inputTimers = 0\<rparr>"
proof -
  from reachable.inputChange [OF reach_eleven_input, of 0 "''3''"]
  have r0: "reachable \<lparr>app = scenarioA, practice = session11 Input
       [''3'', '''', '''', '''', '''', '''', '''', '''', '''', '''', '''']
       [],
     waitTimers = 0, inputTimers = 0\<rparr>"
    by (simp add: unlocked_scenarioA session11_def handleInputChange_def digitOrEmpty_def)
  from reachable.inputChange [OF r0, of 1 "''1''"]
  have r1: "reachable \<lparr>app = scenarioA, practice = session11 Input
       [''3'', ''1'', '''', '''', '''', '''', '''', '''', '''', '''', '''']
       [],
     waitTimers = 0, inputTimers = 0\<rparr>"
    by (simp add: unlocked_scenarioA session11_def handleInputChange_def digitOrEmpty_def)
  from reachable.inputChange [OF r1, of 2 "''4''"]
  have r2: "reachable \<lparr>app = scenarioA, practice = session11 Input
       [''3'', ''1'', ''4'', '''', '''', '''', '''', '''', '''', '''', '''']
       [],
     waitTimers = 0, inputTimers = 0\<rparr>"
    by (simp add: unlocked_scenarioA session11_def handleInputChange_def digitOrEmpty_def)
  from reachable.inputChange [OF r2, of 3 "''1''"]
  have r3: "reachable \<lparr>app = scenarioA, practice = session11 Input
       [''3'', ''1'', ''4'', ''1'', '''', '''', '''', '''', '''', '''', '''']
       [],
     waitTimers = 0, inputTimers = 0\<rparr>"
    by (simp add: unlocked_scenarioA session11_def handleInputChange_def digitOrEmpty_def)
  from reachable.inputChange [OF r3, of 4 "''5''"]
  have r4: "reachable \<lparr>app = scenarioA, practice = session11 Input
       [''3'', ''1'', ''4'', ''1'', ''5'', '''', '''', '''', '''', '''', '''']
       [],
     waitTimers = 0, inputTimers = 0\<rparr>"
    by (simp add: unlocked_scenarioA session11_def handleInputChange_def digitOrEmpty_def)
  from reachable.inputChange [OF r4, of 5 "''9''"]
  have r5: "reachable \<lparr>app = scenarioA, practice = session11 Input
       [''3'', ''1'', ''4'', ''1'', ''5'', ''9'', '''', '''', '''', '''', '''']
       [],
     waitTimers = 0, inputTimers = 0\<rparr>"
    by (simp add: unlocked_scenarioA session11_def handleInputChange_def digitOrEmpty_def)
  from reachable.inputChange [OF r5, of 6 "''2''"]
  have r6: "reachable \<lparr>app = scenarioA, practice = session11 Input
       [''3'', ''1'', ''4'', ''1'', ''5'', ''9'', ''2'', '''', '''', '''', '''']
       [],
     waitTimers = 0, inputTimers = 0\<rparr>"
    by (simp add: unlocked_scenarioA session11_def handleInputChange_def digitOrEmpty_def)
  from reachable.inputChange [OF r6, of 7 "''6''"]
  have r7: "reachable \<lparr>app = scenarioA, practice = session11 Input
       [''3'', ''1'', ''4'', ''1'', ''5'', ''9'', ''2'', ''6'', '''', '''', '''']
       [],
     waitTimers = 0, inputTimers = 0\<rparr>"
    by (simp add: unlocked_scenarioA session11_def handleInputChange_def digitOrEmpty_def)
  from reachable.inputChange [OF r7, of 8 "''5''"]
  have r8: "reachable \<lparr>app = scenarioA, practice = session11 Input
       [''3'', ''1'', ''4'', ''1'', ''5'', ''9'', ''2'', ''6'', ''5'', '''', '''']
       [],
     waitTimers = 0, inputTimers = 0\<rparr>"
    by (simp add: unlocked_scenarioA session11_def handleInputChange_def digitOrEmpty_def)
  from reachable.inputChange [OF r8, of 9 "''3''"]
  have r9: "reachable \<lparr>app = scenarioA, practice = session11 Input
       [''3'', ''1'', ''4'', ''1'', ''5'', ''9'', ''2'', ''6'', ''5'', ''3'', '''']
       [],
     waitTimers = 0, inputTimers = 0\<rparr>"
    by (simp add: unlocked_scenarioA session11_def handleInputChange_def digitOrEmpty_def)
  from reachable.inputChange [OF r9, of 10 "''5''"] show ?thesis
    by (simp add: unlocked_scenarioA session11_def handleInputChange_def digitOrEmpty_def)
qed

lemma reach_elevenDigitWorld: "reachable elevenDigitWorld"
proof -
  from reachable.selectTag [OF reach_eleven_review, of 2 "oneTag ''4'' ''door''" "firstTag ''4'' ''door''"]
  have "reachable \<lparr>app = scenarioA, practice = session11 Review
       [''3'', ''1'', ''4'', ''1'', ''5'', ''9'', ''2'', ''6'', ''5'', ''3'', ''5'']
       [(2, ''4-1700000000000'')],
     waitTimers = 0, inputTimers = 0\<rparr>"
    by (simp add: unlocked_scenarioA session11_def slotCorrect_def itemAt_def charAt_def
        keyString_def scenarioA_4 oneTag_def firstTag_def handleSelectTag_def)
  from reachable.selectTag [OF this, of 10 "oneTag ''5'' ''hive''" "firstTag ''5'' ''hive''"]
  show ?thesis
    by (simp add: unlocked_scenarioA session11_def slotCorrect_def itemAt_def charAt_def
        keyString_def scenarioA_5 oneTag_def firstTag_def handleSelectTag_def
        elevenDigitWorld_def)
qed

lemma sorted_keys_eleven: "sort [''2'', ''10''] = [''10'', ''2'']"
  by code_simp

lemma keys_eleven: "objectKeys (selectedTags (practice elevenDigitWorld)) = [''2'', ''10'']"
  by (simp add: elevenDigitWorld_def session11_def objectKeys_def natString.simps digitChar_def)

lemma numberOf_2: "numberOf ''2'' = 2"
  using numberOf_natString [of 2] by (simp add: natString.simps digitChar_def)

lemma numberOf_10: "numberOf ''10'' = 10"
  using numberOf_natString [of 10] by (simp add: natString.simps digitChar_def)

text \<open>
  Claim C8. The chosen string is not in slot order once a session has more than ten slots:
  the keys are sorted as strings, so slot 10 comes before slot 2. In the reachable state
  below the slots 2 and 10 hold the tags labelled \<^verbatim>\<open>door\<close> and \<^verbatim>\<open>hive\<close>; in slot order the
  labels read \<^verbatim>\<open>door\<close>, \<^verbatim>\<open>hive\<close>, and the screen shows \<^verbatim>\<open>hive door\<close>.
\<close>

theorem chosen_string_sorts_keys_as_strings:
  "reachable elevenDigitWorld \<and>
   map_of (selectedTags (practice elevenDigitWorld)) 2 = Some ''4-1700000000000'' \<and>
   map_of (selectedTags (practice elevenDigitWorld)) 10 = Some ''5-1700000000000'' \<and>
   labelOfKey (app elevenDigitWorld) (practice elevenDigitWorld) ''2'' = ''door'' \<and>
   labelOfKey (app elevenDigitWorld) (practice elevenDigitWorld) ''10'' = ''hive'' \<and>
   chosenString (app elevenDigitWorld) (practice elevenDigitWorld) = ''hive door''"
proof -
  have a: "labelOfKey (app elevenDigitWorld) (practice elevenDigitWorld) ''2'' = ''door''"
    by (simp add: labelOfKey_def numberOf_2 Let_def)
       (simp add: elevenDigitWorld_def session11_def charAt_def keyString_def scenarioA_4
         oneTag_def firstTag_def)
  have b: "labelOfKey (app elevenDigitWorld) (practice elevenDigitWorld) ''10'' = ''hive''"
    by (simp add: labelOfKey_def numberOf_10 Let_def)
       (simp add: elevenDigitWorld_def session11_def charAt_def keyString_def scenarioA_5
         oneTag_def firstTag_def)
  have c: "chosenString (app elevenDigitWorld) (practice elevenDigitWorld) = ''hive door''"
    by (simp add: chosenString_def keys_eleven sorted_keys_eleven a b joinWith_def)
  have d: "map_of (selectedTags (practice elevenDigitWorld)) 2 = Some ''4-1700000000000''"
    "map_of (selectedTags (practice elevenDigitWorld)) 10 = Some ''5-1700000000000''"
    by (simp_all add: elevenDigitWorld_def session11_def)
  from reach_elevenDigitWorld a b c d show ?thesis by blast
qed


section \<open>History\<close>

lemma testsLast24h_Cons:
  "testsLast24h getTime (st\<lparr>tests := test # tests st\<rparr>) now =
     (case getTime (date test) of
        None \<Rightarrow> testsLast24h getTime st now
      | Some t \<Rightarrow> if now - 86400000 \<le> t then Suc (testsLast24h getTime st now)
                  else testsLast24h getTime st now)"
  by (simp add: testsLast24h_def Let_def split: option.splits)

text \<open>
  Claim C9, as amended. The recent count is the number of tests whose time stamp is at least
  the reference time minus 24 hours (the window is fixed); there is no upper bound, so a
  test dated after the reference time is counted.
\<close>

theorem recent_count_lower_bound_only:
  "testsLast24h getTime st now =
     card {i. i < length (tests st) \<and>
              (\<exists>t. getTime (date (tests st ! i)) = Some t \<and> now - 86400000 \<le> t)} \<and>
   (\<forall>test t. getTime (date test) = Some t \<and> now < t \<longrightarrow>
      testsLast24h getTime (st\<lparr>tests := test # tests st\<rparr>) now =
        Suc (testsLast24h getTime st now))"
proof
  show "testsLast24h getTime st now =
     card {i. i < length (tests st) \<and>
              (\<exists>t. getTime (date (tests st ! i)) = Some t \<and> now - 86400000 \<le> t)}"
    by (simp add: testsLast24h_def Let_def length_filter_conv_card)
       (rule arg_cong [where f = card], auto split: option.splits)
next
  show "\<forall>test t. getTime (date test) = Some t \<and> now < t \<longrightarrow>
      testsLast24h getTime (st\<lparr>tests := test # tests st\<rparr>) now =
        Suc (testsLast24h getTime st now)"
    by (simp add: testsLast24h_Cons)
qed

theorem recent_count_lower_bound_only_witness:
  "sampleClock ''2023-11-14T22:13:20.001Z'' = Some 1700000000001 \<and>
   (1700000000000::int) < 1700000000001 \<and>
   testsLast24h sampleClock
     (INITIAL_STATE\<lparr>tests := \<lparr>id_test = ''1700000000001'', date = ''2023-11-14T22:13:20.001Z'',
               difficulty = Easy, successRate = Rate 100\<rparr> # tests INITIAL_STATE\<rparr>) 1700000000000 =
     Suc (testsLast24h sampleClock INITIAL_STATE 1700000000000)"
proof -
  have c: "sampleClock (date \<lparr>id_test = ''1700000000001'', date = ''2023-11-14T22:13:20.001Z'',
               difficulty = Easy, successRate = Rate 100\<rparr>) = Some 1700000000001"
    by (simp add: sampleClock_def)
  from recent_count_lower_bound_only [of sampleClock INITIAL_STATE 1700000000000] c
  show ?thesis
    by (simp add: sampleClock_def)
qed

text \<open>
  The claim as stated fails: a test dated one millisecond after the reference time is
  counted.
\<close>

theorem recent_count_counterexample:
  "sampleClock (date (hd (tests nearFutureState))) = Some 1700000000001 \<and>
   (1700000000000::int) < 1700000000001 \<and>
   testsLast24h sampleClock nearFutureState 1700000000000 = 1"
  by (simp add: nearFutureState_def sampleClock_def testsLast24h_def)



section \<open>Start-up\<close>

text \<open>
  Claim C4. With no stored row, or when the SQL statement fails, start-up yields the seed
  state. A stored text that \<^verbatim>\<open>JSON.parse\<close> rejects is not treated as absent: the exception
  leaves \<^verbatim>\<open>loadState\<close>, the promise is never resolved and no seed state is set. A stored
  text that parses is adopted as the state when it is truthy, whatever its shape.
\<close>

theorem hydrate_cases:
  "hydrate parse (Rows []) = Inr (Seeded seedState) \<and>
   hydrate parse SqlError = Inr (Seeded seedState) \<and>
   (parse stored = None \<longrightarrow> hydrate parse (Rows (stored # rest)) = Inl SyntaxError) \<and>
   (\<forall>v. parse stored = Some v \<longrightarrow>
      hydrate parse (Rows (stored # rest)) =
        Inr (if truthy v then Adopted v else Seeded seedState))"
  by (simp add: hydrate_def loadState_def)

theorem hydrate_cases_witness:
  "parseBraces ''{'' = None \<and> hydrate parseBraces (Rows [''{'']) = Inl SyntaxError \<and>
   parseBraces ''{}'' = Some (JObject []) \<and>
   hydrate parseBraces (Rows [''{}'']) = Inr (Adopted (JObject []))"
proof -
  have a: "parseBraces ''{'' = None" and b: "parseBraces ''{}'' = Some (JObject [])"
    by (simp_all add: parseBraces_def)
  from hydrate_cases [of parseBraces "''{''" "[]"] hydrate_cases [of parseBraces "''{}''" "[]"] a b
  show ?thesis by simp
qed



section \<open>Statistics\<close>

subsection \<open>The error of the two roundings\<close>






subsection \<open>The rates\<close>





end
